theory Spec2Isabelle
  imports Main "HOL-Library.Sublist" "HOL-Library.Multiset" "HOL-Library.Char_ord"
    "HOL-Library.List_Lexorder"
begin

section \<open>Strings of the JavaScript runtime\<close>

text \<open>
  A JavaScript string is modelled as a \<^typ>\<open>string\<close>, one \<^typ>\<open>char\<close> per
  character: the model is of ASCII text. \<open>toLowerCase\<close> maps the 26 capital letters to
  their small letters and keeps every other character.
\<close>

definition toLowerChar :: "char \<Rightarrow> char" where
  "toLowerChar c =
     (case map_of (zip ''ABCDEFGHIJKLMNOPQRSTUVWXYZ'' ''abcdefghijklmnopqrstuvwxyz'') c of
        Some d \<Rightarrow> d
      | None \<Rightarrow> c)"

definition toLowerCase :: "string \<Rightarrow> string" where
  "toLowerCase s = map toLowerChar s"

text \<open>
  \<open>s.includes(needle)\<close>, named \<open>includesStr\<close> here: the needle occurs at some position
  of \<open>s\<close>.
\<close>

fun includesStr :: "string \<Rightarrow> string \<Rightarrow> bool" where
  "includesStr [] needle = (needle = [])"
| "includesStr (c # cs) needle = (prefix needle (c # cs) \<or> includesStr cs needle)"

text \<open>\<open>s.startsWith(p)\<close> and \<open>s.endsWith(p)\<close>.\<close>

definition startsWith :: "string \<Rightarrow> string \<Rightarrow> bool" where
  "startsWith s p = prefix p s"

definition endsWith :: "string \<Rightarrow> string \<Rightarrow> bool" where
  "endsWith s p = suffix p s"

text \<open>
  \<open>s.trim()\<close> removes the white space at both ends: space, tab, line feed, vertical
  tab, form feed and carriage return.
\<close>

definition isWhiteSpace :: "char \<Rightarrow> bool" where
  "isWhiteSpace c = (c \<in> set [CHR '' '', CHR 0x09, CHR 0x0A, CHR 0x0B, CHR 0x0C, CHR 0x0D])"

definition trim :: "string \<Rightarrow> string" where
  "trim s = rev (dropWhile isWhiteSpace (rev (dropWhile isWhiteSpace s)))"

text \<open>\<open>xs.join(sep)\<close> on an array of strings.\<close>

fun join :: "string \<Rightarrow> string list \<Rightarrow> string" where
  "join sep [] = []"
| "join sep [x] = x"
| "join sep (x # y # ys) = x @ sep @ join sep (y # ys)"

text \<open>
  An optional string field is \<open>undefined\<close> (\<open>None\<close>) or a string; in a condition
  JavaScript takes \<open>undefined\<close> and the empty string as false.
\<close>

definition truthy :: "string option \<Rightarrow> bool" where
  "truthy v = (case v of None \<Rightarrow> False | Some s \<Rightarrow> s \<noteq> [])"

text \<open>\<open>v || dflt\<close> on an optional string.\<close>

definition orElse :: "string option \<Rightarrow> string \<Rightarrow> string" where
  "orElse v dflt = (case v of None \<Rightarrow> dflt | Some s \<Rightarrow> (if s = [] then dflt else s))"

text \<open>A number in a template literal: the decimal digits of a natural number.\<close>

definition digitChar :: "nat \<Rightarrow> char" where
  "digitChar d = (''0123456789'' ! d)"

fun showNat :: "nat \<Rightarrow> string" where
  "showNat n = (if n < 10 then [digitChar n] else showNat (n div 10) @ [digitChar (n mod 10)])"

declare showNat.simps [simp del]

section \<open>The data model (types.ts as the code uses it)\<close>

record Example =
  label :: string
  description :: "string option"
  code :: string
  language :: "string option"
  additionalText :: "string option"

text \<open>
  The field \<open>section\<close> of a rule is \<open>section_no\<close> here and its \<open>id\<close> is \<open>rule_id\<close>;
  \<open>rule_id\<close> is \<open>None\<close> until the build assigns it.
\<close>

record Rule =
  title :: string
  impact :: string
  impactDescription :: "string option"
  explanation :: string
  section_no :: nat
  examples :: "Example list"
  supabaseNotes :: "string option"
  references :: "string list"
  rule_id :: "string option"

record ParseResult =
  success :: bool
  rule :: "Rule option"
  parse_errors :: "string list"
  parse_warnings :: "string list"

record ValidationResult =
  valid :: bool
  errors :: "string list"
  warnings :: "string list"

text \<open>
  A file of the rules directory is its name and its content. The parser
  (\<open>parseRuleFile\<close> of parser.ts) is a parameter \<open>P\<close> of every function that calls it:
  it maps a file to a parse result, whose \<open>errors\<close> and \<open>warnings\<close> are \<open>parse_errors\<close>
  and \<open>parse_warnings\<close> here.
\<close>

type_synonym ruleFile = "string \<times> string"

type_synonym parser = "ruleFile \<Rightarrow> ParseResult"

section \<open>config.ts\<close>

definition IMPACT_LEVELS :: "string list" where
  "IMPACT_LEVELS = [''CRITICAL'', ''HIGH'', ''MEDIUM-HIGH'', ''MEDIUM'', ''LOW-MEDIUM'', ''LOW'']"

section \<open>validate.ts\<close>

definition isBadExample :: "string \<Rightarrow> bool" where
  "isBadExample l =
     (let lower = toLowerCase l
      in includesStr lower ''incorrect'' \<or> includesStr lower ''wrong'' \<or> includesStr lower ''bad'')"

definition isGoodExample :: "string \<Rightarrow> bool" where
  "isGoodExample l =
     (let lower = toLowerCase l
      in includesStr lower ''correct'' \<or> includesStr lower ''good'' \<or> includesStr lower ''usage'' \<or>
         includesStr lower ''implementation'' \<or> includesStr lower ''example'' \<or>
         includesStr lower ''recommended'')"

text \<open>The messages of \<open>validateRuleFile\<close>.\<close>

definition E_title :: string where
  "E_title = ''Missing or empty title''"

definition E_explanation :: string where
  "E_explanation = ''Missing or empty explanation''"

definition W_explanation :: string where
  "W_explanation = ''Explanation is shorter than 50 characters''"

definition E_examples :: string where
  "E_examples = ''Missing examples (need at least one bad and one good example)''"

definition E_bad_good :: string where
  "E_bad_good = ''Missing bad/incorrect and good/correct examples''"

definition W_bad :: string where
  "W_bad = ''Missing bad/incorrect example (recommended for clarity)''"

definition E_good :: string where
  "E_good = ''Missing good/correct example''"

definition E_code :: string where
  "E_code = ''Examples have no code''"

definition W_language :: "string \<Rightarrow> string" where
  "W_language l = ''Example \"'' @ l @ ''\" missing language specification''"

definition E_impact :: "string \<Rightarrow> string" where
  "E_impact v =
     ''Invalid impact level: '' @ v @ ''. Must be one of: '' @ join '', '' IMPACT_LEVELS"

definition W_impactDescription :: string where
  "W_impactDescription = ''Missing impactDescription (recommended for quantifying benefit)''"

text \<open>
  The function keeps two arrays and pushes onto them; the model threads the pair
  \<open>(errors, warnings)\<close> through the checks in the order of the source.
\<close>

type_synonym diagnostics = "string list \<times> string list"

definition pushError :: "string \<Rightarrow> diagnostics \<Rightarrow> diagnostics" where
  "pushError m d = (fst d @ [m], snd d)"

definition pushWarning :: "string \<Rightarrow> diagnostics \<Rightarrow> diagnostics" where
  "pushWarning m d = (fst d, snd d @ [m])"

definition hasBad :: "Example list \<Rightarrow> bool" where
  "hasBad exs = list_ex (\<lambda>e. isBadExample (label e)) exs"

definition hasGood :: "Example list \<Rightarrow> bool" where
  "hasGood exs = list_ex (\<lambda>e. isGoodExample (label e)) exs"

definition hasCode :: "Example list \<Rightarrow> bool" where
  "hasCode exs = list_ex (\<lambda>e. code e \<noteq> [] \<and> 0 < length (trim (code e))) exs"

definition checkTitle :: "Rule \<Rightarrow> diagnostics \<Rightarrow> diagnostics" where
  "checkTitle r d =
     (if title r = [] \<or> length (trim (title r)) = 0 then pushError E_title d else d)"

definition checkExplanation :: "Rule \<Rightarrow> diagnostics \<Rightarrow> diagnostics" where
  "checkExplanation r d =
     (if explanation r = [] \<or> length (trim (explanation r)) = 0 then pushError E_explanation d
      else if length (explanation r) < 50 then pushWarning W_explanation d
      else d)"

definition checkBadGood :: "Example list \<Rightarrow> diagnostics \<Rightarrow> diagnostics" where
  "checkBadGood exs d =
     (if \<not> hasBad exs \<and> \<not> hasGood exs then pushError E_bad_good d
      else if \<not> hasBad exs then pushWarning W_bad d
      else if \<not> hasGood exs then pushError E_good d
      else d)"

definition checkCode :: "Example list \<Rightarrow> diagnostics \<Rightarrow> diagnostics" where
  "checkCode exs d = (if \<not> hasCode exs then pushError E_code d else d)"

fun checkLanguage :: "Example list \<Rightarrow> diagnostics \<Rightarrow> diagnostics" where
  "checkLanguage [] d = d"
| "checkLanguage (e # es) d =
     checkLanguage es
       (if code e \<noteq> [] \<and> \<not> truthy (language e) then pushWarning (W_language (label e)) d
        else d)"

definition checkExamples :: "Rule \<Rightarrow> diagnostics \<Rightarrow> diagnostics" where
  "checkExamples r d =
     (if length (examples r) = 0 then pushError E_examples d
      else checkLanguage (examples r) (checkCode (examples r) (checkBadGood (examples r) d)))"

definition checkImpact :: "Rule \<Rightarrow> diagnostics \<Rightarrow> diagnostics" where
  "checkImpact r d =
     (if impact r \<notin> set IMPACT_LEVELS then pushError (E_impact (impact r)) d else d)"

definition checkImpactDescription :: "Rule \<Rightarrow> diagnostics \<Rightarrow> diagnostics" where
  "checkImpactDescription r d =
     (if \<not> truthy (impactDescription r) then pushWarning W_impactDescription d else d)"

definition validateRuleFile :: "parser \<Rightarrow> ruleFile \<Rightarrow> ValidationResult" where
  "validateRuleFile P f =
     (let result = P f;
          d0 = (parse_errors result, parse_warnings result)
      in if \<not> success result then \<lparr>valid = False, errors = fst d0, warnings = snd d0\<rparr>
         else
           (case rule result of
              None \<Rightarrow> \<lparr>valid = False, errors = fst d0, warnings = snd d0\<rparr>
            | Some r \<Rightarrow>
                (let d = checkImpactDescription r
                           (checkImpact r
                              (checkExamples r (checkExplanation r (checkTitle r d0))))
                 in \<lparr>valid = (length (fst d) = 0), errors = fst d, warnings = snd d\<rparr>)))"

text \<open>
  The rules directory as \<open>readdirSync\<close> lists it, the metadata file when it exists, and
  the text that \<open>new Date().toLocaleDateString("en-US", {month: "long", year: "numeric"})\<close>
  gives when the run reads the clock.
\<close>

record fileSystem =
  rulesDir :: "ruleFile list"
  metadataFile :: "string option"
  today :: string

text \<open>The files \<open>validateAllRules\<close> validates, and its result.\<close>

definition validate_ruleFiles :: "fileSystem \<Rightarrow> ruleFile list" where
  "validate_ruleFiles fs =
     filter (\<lambda>f. endsWith (fst f) ''.md'' \<and> \<not> startsWith (fst f) ''_'') (rulesDir fs)"

record ValidationSummary =
  totalFiles :: nat
  validFiles :: nat
  invalidFiles :: nat
  results :: "(string \<times> ValidationResult) list"

fun mapSet :: "'k \<Rightarrow> 'v \<Rightarrow> ('k \<times> 'v) list \<Rightarrow> ('k \<times> 'v) list" where
  "mapSet k v [] = [(k, v)]"
| "mapSet k v ((k', v') # m) = (if k' = k then (k, v) # m else (k', v') # mapSet k v m)"

fun validateLoop :: "parser \<Rightarrow> ruleFile list \<Rightarrow> ValidationSummary \<Rightarrow> ValidationSummary" where
  "validateLoop P [] acc = acc"
| "validateLoop P (f # fs) acc =
     (let result = validateRuleFile P f;
          acc1 = acc\<lparr>results := mapSet (fst f) result (results acc)\<rparr>
      in validateLoop P fs
           (if valid result then acc1\<lparr>validFiles := validFiles acc1 + 1\<rparr>
            else acc1\<lparr>invalidFiles := invalidFiles acc1 + 1\<rparr>))"

definition validateAllRules :: "parser \<Rightarrow> fileSystem \<Rightarrow> ValidationSummary" where
  "validateAllRules P fs =
     (let files = validate_ruleFiles fs
      in validateLoop P files
           \<lparr>totalFiles = length files, validFiles = 0, invalidFiles = 0, results = []\<rparr>)"

section \<open>extract-tests.ts\<close>

text \<open>The file has its own copies of the two label checks.\<close>

definition extract_isBadExample :: "string \<Rightarrow> bool" where
  "extract_isBadExample l =
     (let lower = toLowerCase l
      in includesStr lower ''incorrect'' \<or> includesStr lower ''wrong'' \<or>
         includesStr lower ''bad'')"

definition extract_isGoodExample :: "string \<Rightarrow> bool" where
  "extract_isGoodExample l =
     (let lower = toLowerCase l
      in includesStr lower ''correct'' \<or> includesStr lower ''good'' \<or>
         includesStr lower ''usage'' \<or> includesStr lower ''implementation'' \<or>
         includesStr lower ''example'' \<or> includesStr lower ''recommended'')"

datatype exampleType = Bad | Good

record TestCase =
  ruleId :: string
  ruleTitle :: string
  caseType :: exampleType
  caseCode :: string
  caseLanguage :: string
  caseDescription :: string

text \<open>The type of one example: \<open>None\<close> is the \<open>null\<close> of the source.\<close>

definition typeOfExample :: "Example \<Rightarrow> exampleType option" where
  "typeOfExample e =
     (if extract_isBadExample (label e) then Some Bad
      else if extract_isGoodExample (label e) then Some Good
      else None)"

fun extractExamples :: "string \<Rightarrow> Rule \<Rightarrow> Example list \<Rightarrow> TestCase list \<Rightarrow> TestCase list" where
  "extractExamples rid r [] testCases = testCases"
| "extractExamples rid r (e # es) testCases =
     (if code e = [] \<or> length (trim (code e)) = 0 then extractExamples rid r es testCases
      else
        (case typeOfExample e of
           None \<Rightarrow> extractExamples rid r es testCases
         | Some t \<Rightarrow>
             extractExamples rid r es
               (testCases @
                [\<lparr>ruleId = rid, ruleTitle = title r, caseType = t, caseCode = code e,
                  caseLanguage = orElse (language e) ''sql'',
                  caseDescription =
                    orElse (description e) (label e @ '' example for '' @ title r)\<rparr>])))"

definition extract_ruleFiles :: "fileSystem \<Rightarrow> ruleFile list" where
  "extract_ruleFiles fs =
     filter (\<lambda>f. endsWith (fst f) ''.md'' \<and> \<not> startsWith (fst f) ''_'') (rulesDir fs)"

text \<open>
  The body of the loop for a rule that is valid and parsed; the state is \<open>testCases\<close>
  and \<open>ruleCountBySection\<close>.
\<close>

type_synonym extractState = "TestCase list \<times> (nat \<rightharpoonup> nat)"

definition extractRule :: "Rule \<Rightarrow> extractState \<Rightarrow> extractState" where
  "extractRule r st =
     (let sectionCount = (case snd st (section_no r) of None \<Rightarrow> 0 | Some c \<Rightarrow> c) + 1;
          rid = showNat (section_no r) @ ''.'' @ showNat sectionCount
      in (extractExamples rid r (examples r) (fst st), (snd st)(section_no r \<mapsto> sectionCount)))"

fun extractLoop :: "parser \<Rightarrow> ruleFile list \<Rightarrow> extractState \<Rightarrow> extractState" where
  "extractLoop P [] st = st"
| "extractLoop P (f # fs) st =
     (if \<not> valid (validateRuleFile P f) then extractLoop P fs st
      else
        (let result = P f
         in if \<not> success result then extractLoop P fs st
            else
              (case rule result of
                 None \<Rightarrow> extractLoop P fs st
               | Some r \<Rightarrow> extractLoop P fs (extractRule r st))))"

definition extractTestCases :: "parser \<Rightarrow> fileSystem \<Rightarrow> TestCase list" where
  "extractTestCases P fs = fst (extractLoop P (extract_ruleFiles fs) ([], Map.empty))"

section \<open>build.ts: the section definitions\<close>

record Section =
  sec_number :: nat
  sec_title :: string
  sec_prefix :: string
  sec_impact :: string
  sec_description :: string

text \<open>
  The regular expressions that \<open>parseSections\<close> needs: literal text, a greedy repetition
  of one character class (\<open>+\<close> or \<open>*\<close>), a capturing group and an optional
  non-capturing group. The matcher lists every way a pattern matches at the start of a
  text, in the order in which a backtracking matcher tries them: the longest repetition
  first, an optional group taken before it is skipped. Each result is the text left and
  the captures so far. The first result is the match that \<open>exec\<close> reports.
\<close>

datatype regex =
    Lit string
  | Plus "char \<Rightarrow> bool"
  | Star "char \<Rightarrow> bool"
  | Group nat "regex list"
  | Opt "regex list"

type_synonym captures = "nat \<Rightarrow> string"

fun matchItem :: "regex \<Rightarrow> string \<Rightarrow> captures \<Rightarrow> (string \<times> captures) list"
  and matchSeq :: "regex list \<Rightarrow> string \<Rightarrow> captures \<Rightarrow> (string \<times> captures) list"
where
  "matchItem (Lit l) s caps = (if prefix l s then [(drop (length l) s, caps)] else [])"
| "matchItem (Plus cls) s caps =
     map (\<lambda>k. (drop k s, caps)) (rev [1 ..< Suc (length (takeWhile cls s))])"
| "matchItem (Star cls) s caps =
     map (\<lambda>k. (drop k s, caps)) (rev [0 ..< Suc (length (takeWhile cls s))])"
| "matchItem (Group i rs) s caps =
     map (\<lambda>(rest, c). (rest, c(i := take (length s - length rest) s))) (matchSeq rs s caps)"
| "matchItem (Opt rs) s caps = matchSeq rs s caps @ [(s, caps)]"
| "matchSeq [] s caps = [(s, caps)]"
| "matchSeq (r # rs) s caps =
     concat (map (\<lambda>(rest, c). matchSeq rs rest c) (matchItem r s caps))"

definition isDigit :: "char \<Rightarrow> bool" where
  "isDigit c = (c \<in> set ''0123456789'')"

definition isWord :: "char \<Rightarrow> bool" where
  "isWord c =
     (c \<in> set ''abcdefghijklmnopqrstuvwxyzABCDEFGHIJKLMNOPQRSTUVWXYZ0123456789_'')"

definition notNewlineOrParen :: "char \<Rightarrow> bool" where
  "notNewlineOrParen c = (c \<noteq> CHR 0x0A \<and> c \<noteq> CHR ''('')"

definition notNewline :: "char \<Rightarrow> bool" where
  "notNewline c = (c \<noteq> CHR 0x0A)"

text \<open>
  \<^verbatim>\<open>/##\s+(\d+)\.\s+([^\n(]+)\s*\((\w+)\)\s*\n\*\*Impact:\*\*\s*(\w+(?:-\w+)?)\s*\n\*\*Description:\*\*\s*([^\n]+)/g\<close>
\<close>

definition sectionRegex :: "regex list" where
  "sectionRegex =
     [Lit ''##'', Plus isWhiteSpace, Group 1 [Plus isDigit], Lit ''.'', Plus isWhiteSpace,
      Group 2 [Plus notNewlineOrParen], Star isWhiteSpace, Lit ''('', Group 3 [Plus isWord],
      Lit '')'', Star isWhiteSpace, Lit [CHR 0x0A], Lit ''**Impact:**'', Star isWhiteSpace,
      Group 4 [Plus isWord, Opt [Lit ''-'', Plus isWord]], Star isWhiteSpace, Lit [CHR 0x0A],
      Lit ''**Description:**'', Star isWhiteSpace, Group 5 [Plus notNewline]]"

text \<open>
  \<open>content.matchAll(re)\<close> with the flag \<open>g\<close>: the leftmost match, then the leftmost
  match after its end, and so on. The first argument counts the characters of the
  last match still to be passed over. (The pattern matches no empty text.)
\<close>

fun matchAllFrom :: "regex list \<Rightarrow> nat \<Rightarrow> string \<Rightarrow> captures list" where
  "matchAllFrom re k [] = []"
| "matchAllFrom re (Suc k) (c # cs) = matchAllFrom re k cs"
| "matchAllFrom re 0 (c # cs) =
     (case matchSeq re (c # cs) (\<lambda>_. []) of
        [] \<Rightarrow> matchAllFrom re 0 cs
      | (rest, caps) # _ \<Rightarrow> caps # matchAllFrom re (length cs - length rest) cs)"

definition matchAll :: "regex list \<Rightarrow> string \<Rightarrow> captures list" where
  "matchAll re content = matchAllFrom re 0 content"

text \<open>\<open>parseInt(digits, 10)\<close> on a text of decimal digits (exact below \<open>2^53\<close>).\<close>

definition digitValue :: "char \<Rightarrow> nat" where
  "digitValue c = length (takeWhile (\<lambda>d. d \<noteq> c) ''0123456789'')"

definition parseInt :: "string \<Rightarrow> nat" where
  "parseInt ds = foldl (\<lambda>n c. 10 * n + digitValue c) 0 ds"

definition getDefaultSections :: "Section list" where
  "getDefaultSections =
     [\<lparr>sec_number = 1, sec_title = ''Query Performance'', sec_prefix = ''query'',
       sec_impact = ''CRITICAL'',
       sec_description = ''Slow queries, missing indexes, inefficient plans''\<rparr>,
      \<lparr>sec_number = 2, sec_title = ''Connection Management'', sec_prefix = ''conn'',
       sec_impact = ''CRITICAL'', sec_description = ''Pooling, limits, serverless strategies''\<rparr>,
      \<lparr>sec_number = 3, sec_title = ''Schema Design'', sec_prefix = ''schema'',
       sec_impact = ''HIGH'',
       sec_description = ''Table design, indexes, partitioning, data types''\<rparr>,
      \<lparr>sec_number = 4, sec_title = ''Concurrency & Locking'', sec_prefix = ''lock'',
       sec_impact = ''MEDIUM-HIGH'', sec_description = ''Transactions, isolation, deadlocks''\<rparr>,
      \<lparr>sec_number = 5, sec_title = ''Security & RLS'', sec_prefix = ''security'',
       sec_impact = ''MEDIUM-HIGH'',
       sec_description = ''Row-Level Security, privileges, auth patterns''\<rparr>,
      \<lparr>sec_number = 6, sec_title = ''Data Access Patterns'', sec_prefix = ''data'',
       sec_impact = ''MEDIUM'', sec_description = ''N+1 queries, batch operations, pagination''\<rparr>,
      \<lparr>sec_number = 7, sec_title = ''Monitoring & Diagnostics'', sec_prefix = ''monitor'',
       sec_impact = ''LOW-MEDIUM'', sec_description = ''pg_stat_statements, EXPLAIN, metrics''\<rparr>,
      \<lparr>sec_number = 8, sec_title = ''Advanced Features'', sec_prefix = ''advanced'',
       sec_impact = ''LOW'', sec_description = ''Full-text search, JSONB, extensions''\<rparr>]"

definition sectionOfMatch :: "captures \<Rightarrow> Section" where
  "sectionOfMatch m =
     \<lparr>sec_number = parseInt (m 1), sec_title = trim (m 2), sec_prefix = trim (m 3),
      sec_impact = trim (m 4), sec_description = trim (m 5)\<rparr>"

text \<open>The file \<open>_sections.md\<close> is looked up in the rules directory.\<close>

definition sectionsFile :: "fileSystem \<Rightarrow> string option" where
  "sectionsFile fs = map_of (rulesDir fs) ''_sections.md''"

definition parseSections :: "fileSystem \<Rightarrow> Section list" where
  "parseSections fs =
     (case sectionsFile fs of
        None \<Rightarrow> getDefaultSections
      | Some content \<Rightarrow>
          (let sections = map sectionOfMatch (matchAll sectionRegex content)
           in if 0 < length sections then sections else getDefaultSections))"

section \<open>build.ts: metadata, grouping and identifiers\<close>

record Metadata =
  version :: string
  organization :: string
  date :: string
  abstract :: string
  meta_references :: "string list"

datatype error = SyntaxError

text \<open>
  \<open>JSON.parse\<close> is a parameter \<open>J\<close>: it gives the metadata object of a text, or throws
  (\<open>None\<close>). Without a metadata file the date is read from the clock.
\<close>

type_synonym jsonParser = "string \<Rightarrow> Metadata option"

definition loadMetadata :: "jsonParser \<Rightarrow> fileSystem \<Rightarrow> error + Metadata" where
  "loadMetadata J fs =
     (case metadataFile fs of
        None \<Rightarrow>
          Inr \<lparr>version = ''0.1.0'', organization = ''Supabase'', date = today fs,
               abstract = ''Postgres performance optimization guide for developers.'',
               meta_references = []\<rparr>
      | Some text \<Rightarrow> (case J text of None \<Rightarrow> Inl SyntaxError | Some m \<Rightarrow> Inr m))"

text \<open>
  \<open>toAnchor\<close>: lower case, then every character other than \<open>a-z\<close>, \<open>0-9\<close>, white
  space and \<open>-\<close> removed, then every run of white space replaced by one \<open>-\<close>.
\<close>

definition anchorChar :: "char \<Rightarrow> bool" where
  "anchorChar c =
     (c \<in> set ''abcdefghijklmnopqrstuvwxyz0123456789-'' \<or> isWhiteSpace c)"

fun hyphenate :: "bool \<Rightarrow> string \<Rightarrow> string" where
  "hyphenate inRun [] = []"
| "hyphenate inRun (c # cs) =
     (if isWhiteSpace c then (if inRun then hyphenate True cs else CHR ''-'' # hyphenate True cs)
      else c # hyphenate False cs)"

definition toAnchor :: "string \<Rightarrow> string" where
  "toAnchor text = hyphenate False (filter anchorChar (toLowerCase text))"

definition build_ruleFiles :: "fileSystem \<Rightarrow> ruleFile list" where
  "build_ruleFiles fs =
     filter (\<lambda>f. endsWith (fst f) ''.md'' \<and> \<not> startsWith (fst f) ''_'') (rulesDir fs)"

text \<open>The loop that parses and validates the files; its state is the array \<open>rules\<close>.\<close>

fun collectRules :: "parser \<Rightarrow> ruleFile list \<Rightarrow> Rule list \<Rightarrow> Rule list" where
  "collectRules P [] rules = rules"
| "collectRules P (f # fs) rules =
     (if \<not> valid (validateRuleFile P f) then collectRules P fs rules
      else
        (let result = P f
         in if success result
            then (case rule result of
                    Some r \<Rightarrow> collectRules P fs (rules @ [r])
                  | None \<Rightarrow> collectRules P fs rules)
            else collectRules P fs rules))"

text \<open>
  \<open>rulesBySection\<close> is a \<open>Map\<close>; it is iterated in the order in which its keys were
  first set, so it is an association list. \<open>m.get(k) || []\<close> is \<open>rulesOf m k\<close>.
\<close>

type_synonym sectionMap = "(nat \<times> Rule list) list"

definition rulesOf :: "sectionMap \<Rightarrow> nat \<Rightarrow> Rule list" where
  "rulesOf m k = (case map_of m k of None \<Rightarrow> [] | Some rs \<Rightarrow> rs)"

fun groupRules :: "Rule list \<Rightarrow> sectionMap \<Rightarrow> sectionMap" where
  "groupRules [] m = m"
| "groupRules (r # rs) m =
     (let sectionRules = rulesOf m (section_no r)
      in groupRules rs (mapSet (section_no r) (sectionRules @ [r]) m))"

text \<open>
  \<open>Array.prototype.sort\<close> with a comparison function is a stable sort: an element goes
  before another when the comparison is negative, and elements that compare equal keep
  their order. \<open>localeCompare\<close> is a parameter \<open>lc\<close>.
\<close>

type_synonym collation = "string \<Rightarrow> string \<Rightarrow> int"

fun insertSorted :: "('a \<Rightarrow> 'a \<Rightarrow> int) \<Rightarrow> 'a \<Rightarrow> 'a list \<Rightarrow> 'a list" where
  "insertSorted cmp x [] = [x]"
| "insertSorted cmp x (y # ys) =
     (if cmp x y \<le> 0 then x # y # ys else y # insertSorted cmp x ys)"

definition sortStable :: "('a \<Rightarrow> 'a \<Rightarrow> int) \<Rightarrow> 'a list \<Rightarrow> 'a list" where
  "sortStable cmp xs = foldr (insertSorted cmp) xs []"

definition byTitle :: "collation \<Rightarrow> Rule \<Rightarrow> Rule \<Rightarrow> int" where
  "byTitle lc a b = lc (title a) (title b)"

definition idText :: "nat \<Rightarrow> nat \<Rightarrow> string" where
  "idText sectionNum index = showNat sectionNum @ ''.'' @ showNat (index + 1)"

fun assignFrom :: "nat \<Rightarrow> nat \<Rightarrow> Rule list \<Rightarrow> Rule list" where
  "assignFrom sectionNum index [] = []"
| "assignFrom sectionNum index (r # rs) =
     r\<lparr>rule_id := Some (idText sectionNum index)\<rparr> # assignFrom sectionNum (Suc index) rs"

definition sortAndAssign :: "collation \<Rightarrow> sectionMap \<Rightarrow> sectionMap" where
  "sortAndAssign lc m =
     map (\<lambda>(sectionNum, sectionRules).
            (sectionNum, assignFrom sectionNum 0 (sortStable (byTitle lc) sectionRules))) m"

definition rulesBySection :: "collation \<Rightarrow> parser \<Rightarrow> fileSystem \<Rightarrow> sectionMap" where
  "rulesBySection lc P fs = sortAndAssign lc (groupRules (collectRules P (build_ruleFiles fs) []) [])"

section \<open>build.ts: rendering\<close>

definition showId :: "Rule \<Rightarrow> string" where
  "showId r = (case rule_id r of None \<Rightarrow> ''undefined'' | Some i \<Rightarrow> i)"

definition renderHeader :: "Metadata \<Rightarrow> string list" where
  "renderHeader metadata =
     [''# Postgres Best Practices'' @ [CHR 0x0A],
      ''**Version '' @ version metadata @ ''**'',
      organization metadata,
      date metadata @ [CHR 0x0A],
      ''> This document is optimized for AI agents and LLMs. Rules are prioritized by performance impact.''
        @ [CHR 0x0A],
      ''---'' @ [CHR 0x0A],
      ''## Abstract'' @ [CHR 0x0A],
      abstract metadata @ [CHR 0x0A],
      ''---'' @ [CHR 0x0A]]"

definition renderTocRule :: "Rule \<Rightarrow> string" where
  "renderTocRule r =
     ''   - '' @ showId r @ '' ['' @ title r @ ''](#'' @ toAnchor (showId r @ ''-'' @ title r) @ '')''"

definition renderTocSection :: "sectionMap \<Rightarrow> Section \<Rightarrow> string list" where
  "renderTocSection m sec =
     (let sectionRules = rulesOf m (sec_number sec)
      in [showNat (sec_number sec) @ ''. ['' @ sec_title sec @ ''](#'' @ toAnchor (sec_title sec)
            @ '') - **'' @ sec_impact sec @ ''**'']
         @ map renderTocRule sectionRules @ [[]])"

definition renderExample :: "Example \<Rightarrow> string list" where
  "renderExample e =
     [if truthy (description e)
      then ''**'' @ label e @ '' ('' @ orElse (description e) [] @ ''):**'' @ [CHR 0x0A]
      else ''**'' @ label e @ '':**'' @ [CHR 0x0A],
      ''```'' @ orElse (language e) ''sql'',
      code e,
      ''```'' @ [CHR 0x0A]]
     @ (if truthy (additionalText e) then [orElse (additionalText e) [] @ [CHR 0x0A]] else [])"

definition renderReferences :: "string list \<Rightarrow> string list" where
  "renderReferences refs =
     (if 0 < length refs
      then (if length refs = 1 then [''Reference: '' @ hd refs @ [CHR 0x0A]]
            else [''References:''] @ map (\<lambda>ref. ''- '' @ ref) refs @ [[]])
      else [])"

definition renderRule :: "Rule \<Rightarrow> string list" where
  "renderRule r =
     [''### '' @ showId r @ '' '' @ title r @ [CHR 0x0A],
      if truthy (impactDescription r)
      then ''**Impact: '' @ impact r @ '' ('' @ orElse (impactDescription r) [] @ '')**'' @ [CHR 0x0A]
      else ''**Impact: '' @ impact r @ ''**'' @ [CHR 0x0A],
      explanation r @ [CHR 0x0A]]
     @ concat (map renderExample (examples r))
     @ (if truthy (supabaseNotes r)
        then [''**Supabase Note:** '' @ orElse (supabaseNotes r) [] @ [CHR 0x0A]] else [])
     @ renderReferences (references r)
     @ [''---'' @ [CHR 0x0A]]"

definition renderSection :: "sectionMap \<Rightarrow> Section \<Rightarrow> string list" where
  "renderSection m sec =
     (let sectionRules = rulesOf m (sec_number sec)
      in [''## '' @ showNat (sec_number sec) @ ''. '' @ sec_title sec @ [CHR 0x0A],
          ''**Impact: '' @ sec_impact sec @ ''**'' @ [CHR 0x0A],
          sec_description sec @ [CHR 0x0A]]
         @ (if length sectionRules = 0
            then [''*No rules defined yet. See rules/_template.md for creating new rules.*''
                    @ [CHR 0x0A]]
            else [])
         @ concat (map renderRule sectionRules))"

definition renderMetaReferences :: "Metadata \<Rightarrow> string list" where
  "renderMetaReferences metadata =
     (if 0 < length (meta_references metadata)
      then [''## References'' @ [CHR 0x0A]] @ map (\<lambda>ref. ''- '' @ ref) (meta_references metadata)
           @ [[]]
      else [])"

definition renderDocument :: "Metadata \<Rightarrow> Section list \<Rightarrow> sectionMap \<Rightarrow> string" where
  "renderDocument metadata sections m =
     join [CHR 0x0A]
       (renderHeader metadata
        @ [''## Table of Contents'' @ [CHR 0x0A]]
        @ concat (map (renderTocSection m) sections)
        @ [''---'' @ [CHR 0x0A]]
        @ concat (map (renderSection m) sections)
        @ renderMetaReferences metadata)"

text \<open>\<open>buildAgents\<close>: the text written to AGENTS.md, or the exception thrown.\<close>

definition buildAgents :: "collation \<Rightarrow> parser \<Rightarrow> jsonParser \<Rightarrow> fileSystem \<Rightarrow> error + string" where
  "buildAgents lc P J fs =
     (case loadMetadata J fs of
        Inl e \<Rightarrow> Inl e
      | Inr metadata \<Rightarrow>
          Inr (renderDocument metadata (parseSections fs) (rulesBySection lc P fs)))"

section \<open>Notions for the statements\<close>

text \<open>
  The diagnostics that \<open>validateRuleFile\<close> pushes after the parser's own: the result's
  lists without the parser's prefix.
\<close>

definition validatorErrors :: "parser \<Rightarrow> ruleFile \<Rightarrow> string list" where
  "validatorErrors P f = drop (length (parse_errors (P f))) (errors (validateRuleFile P f))"

definition validatorWarnings :: "parser \<Rightarrow> ruleFile \<Rightarrow> string list" where
  "validatorWarnings P f =
     drop (length (parse_warnings (P f))) (warnings (validateRuleFile P f))"

text \<open>Each check of the validator, read as the list of messages it contributes.\<close>

definition titleErrors :: "Rule \<Rightarrow> string list" where
  "titleErrors r = (if title r = [] \<or> length (trim (title r)) = 0 then [E_title] else [])"

definition explanationErrors :: "Rule \<Rightarrow> string list" where
  "explanationErrors r =
     (if explanation r = [] \<or> length (trim (explanation r)) = 0 then [E_explanation] else [])"

definition explanationWarnings :: "Rule \<Rightarrow> string list" where
  "explanationWarnings r =
     (if explanation r = [] \<or> length (trim (explanation r)) = 0 then []
      else if length (explanation r) < 50 then [W_explanation] else [])"

definition badGoodErrors :: "Example list \<Rightarrow> string list" where
  "badGoodErrors exs =
     (if \<not> hasBad exs \<and> \<not> hasGood exs then [E_bad_good]
      else if hasBad exs \<and> \<not> hasGood exs then [E_good] else [])"

definition badGoodWarnings :: "Example list \<Rightarrow> string list" where
  "badGoodWarnings exs = (if \<not> hasBad exs \<and> hasGood exs then [W_bad] else [])"

definition languageWarnings :: "Example list \<Rightarrow> string list" where
  "languageWarnings exs =
     map (\<lambda>e. W_language (label e))
       (filter (\<lambda>e. code e \<noteq> [] \<and> \<not> truthy (language e)) exs)"

definition exampleErrors :: "Rule \<Rightarrow> string list" where
  "exampleErrors r =
     (if examples r = [] then [E_examples]
      else badGoodErrors (examples r) @ (if hasCode (examples r) then [] else [E_code]))"

definition exampleWarnings :: "Rule \<Rightarrow> string list" where
  "exampleWarnings r =
     (if examples r = [] then []
      else badGoodWarnings (examples r) @ languageWarnings (examples r))"

definition impactErrors :: "Rule \<Rightarrow> string list" where
  "impactErrors r = (if impact r \<in> set IMPACT_LEVELS then [] else [E_impact (impact r)])"

definition impactDescriptionWarnings :: "Rule \<Rightarrow> string list" where
  "impactDescriptionWarnings r =
     (if truthy (impactDescription r) then [] else [W_impactDescription])"

text \<open>
  The diagnostics about examples: the five fixed messages of the examples block, and
  every message that starts like the missing-language warning.
\<close>

definition exampleRelated :: "string \<Rightarrow> bool" where
  "exampleRelated m =
     (m \<in> set [E_examples, E_bad_good, W_bad, E_good, E_code] \<or> prefix ''Example \"'' m)"

text \<open>
  Modelled from the spec: parser.ts is not among the sources. Section 4.1 gives its
  contract: \<open>parse\<close> returns \<open>{success, rule?, errors[], warnings[]}\<close> and all failure is
  returned as structured errors; so a result without success or without a rule carries
  at least one error.
\<close>

definition parserContract :: "ParseResult \<Rightarrow> bool" where
  "parserContract res = ((success res \<and> rule res \<noteq> None) \<or> parse_errors res \<noteq> [])"

text \<open>The label of an example as the spec classifies it: the bad check first.\<close>

definition classify :: "string \<Rightarrow> exampleType option" where
  "classify l =
     (if isBadExample l then Some Bad else if isGoodExample l then Some Good else None)"

text \<open>
  A comparison function is consistent when swapping its arguments swaps the sign and
  the relation it gives (the first argument is not after the second) is transitive;
  \<open>Array.prototype.sort\<close> promises a sorted result only for such a function, and a
  collation is one.
\<close>

definition consistent :: "('a \<Rightarrow> 'a \<Rightarrow> int) \<Rightarrow> bool" where
  "consistent cmp =
     ((\<forall>a b. (cmp a b < 0) = (0 < cmp b a)) \<and>
      (\<forall>a b c. cmp a b \<le> 0 \<and> cmp b c \<le> 0 \<longrightarrow> cmp a c \<le> 0))"

text \<open>The directory without one of its files.\<close>

definition withoutFile :: "ruleFile \<Rightarrow> fileSystem \<Rightarrow> fileSystem" where
  "withoutFile f fs = fs\<lparr>rulesDir := filter (\<lambda>g. g \<noteq> f) (rulesDir fs)\<rparr>"

text \<open>The rules of the files whose validation has no error, in the order of the files.\<close>

definition rulesWithoutErrors :: "parser \<Rightarrow> ruleFile list \<Rightarrow> Rule list" where
  "rulesWithoutErrors P files =
     concat (map (\<lambda>f. case rule (P f) of Some r \<Rightarrow> [r] | None \<Rightarrow> [])
       (filter (\<lambda>f. errors (validateRuleFile P f) = []) files))"

text \<open>
  The identifiers of the extractor, rule by rule: what its loop computes as \<open>ruleId\<close>
  for each rule of a list, starting from the given counters.
\<close>

fun extractorIds :: "Rule list \<Rightarrow> (nat \<rightharpoonup> nat) \<Rightarrow> (Rule \<times> string) list" where
  "extractorIds [] cnt = []"
| "extractorIds (r # rs) cnt =
     (let sectionCount = (case cnt (section_no r) of None \<Rightarrow> 0 | Some c \<Rightarrow> c) + 1
      in (r, showNat (section_no r) @ ''.'' @ showNat sectionCount)
         # extractorIds rs (cnt(section_no r \<mapsto> sectionCount)))"

text \<open>
  The name of a rule file, as the three entry points select it: it ends with \<open>.md\<close>
  and does not start with an underscore.
\<close>

definition isRuleFile :: "ruleFile \<Rightarrow> bool" where
  "isRuleFile f = (endsWith (fst f) ''.md'' \<and> \<not> startsWith (fst f) ''_'')"

text \<open>
  The rules that a run takes from a list of files: for every file whose validation is
  valid, the rule of its parse result, in the order of the files.
\<close>

definition validRules :: "parser \<Rightarrow> ruleFile list \<Rightarrow> Rule list" where
  "validRules P files =
     concat (map (\<lambda>f. if valid (validateRuleFile P f)
                       then (case rule (P f) of Some r \<Rightarrow> [r] | None \<Rightarrow> [])
                       else []) files)"

text \<open>
  No two different rules of one section have titles that the collation takes as equal.
\<close>

definition noTitleTies :: "collation \<Rightarrow> Rule list \<Rightarrow> bool" where
  "noTitleTies lc rs =
     (\<forall>a \<in> set rs. \<forall>b \<in> set rs.
        section_no a = section_no b \<and> lc (title a) (title b) = 0 \<longrightarrow> a = b)"

section \<open>Sample inputs\<close>

text \<open>A collation for the samples: the order of the character codes.\<close>

definition codeOrder :: collation where
  "codeOrder a b = (if a < b then - 1 else if a = b then 0 else 1)"

definition exIncorrect :: Example where
  "exIncorrect =
     \<lparr>label = ''Incorrect'', description = Some ''sequential scan'',
      code = ''SELECT * FROM a;'', language = Some ''sql'', additionalText = None\<rparr>"

definition exCorrect :: Example where
  "exCorrect =
     \<lparr>label = ''Correct'', description = None, code = ''SELECT id FROM a;'',
      language = None, additionalText = Some ''Use the index.''\<rparr>"

definition exIncorrectExample :: Example where
  "exIncorrectExample =
     \<lparr>label = ''Incorrect Example'', description = None, code = ''SELECT * FROM b;'',
      language = Some ''sql'', additionalText = None\<rparr>"

definition sampleRule :: "string \<Rightarrow> string \<Rightarrow> Example list \<Rightarrow> Rule" where
  "sampleRule t i exs =
     \<lparr>title = t, impact = i, impactDescription = Some ''10x faster'',
      explanation = ''An explanation of the rule that is at least fifty characters long.'',
      section_no = 3, examples = exs, supabaseNotes = None, references = [''https://x.y''],
      rule_id = None\<rparr>"

text \<open>
  A parser for the samples: it knows six files by name, and fails on every other file
  with one error.
\<close>

definition sampleParser :: parser where
  "sampleParser f =
     (case map_of
        [(''schema-a.md'', sampleRule ''Zebra Index'' ''HIGH'' [exIncorrect, exCorrect]),
         (''schema-b.md'', sampleRule ''Avoid Bloat'' ''HIGH'' [exIncorrect, exCorrect]),
         (''schema-c.md'', sampleRule ''Cache Plans'' ''SEVERE'' [exIncorrect, exCorrect]),
         (''schema-d.md'', sampleRule ''Drop Unused'' ''LOW'' [exIncorrect]),
         (''schema-e.md'', sampleRule ''Expire Rows'' ''LOW'' [exIncorrectExample]),
         (''schema-f.md'', sampleRule ''Find Gaps'' ''MEDIUM'' [])] (fst f) of
        Some r \<Rightarrow> \<lparr>success = True, rule = Some r, parse_errors = [], parse_warnings = []\<rparr>
      | None \<Rightarrow>
          \<lparr>success = False, rule = None, parse_errors = [''Missing title''],
           parse_warnings = []\<rparr>)"

definition sampleFs :: "string list \<Rightarrow> fileSystem" where
  "sampleFs names =
     \<lparr>rulesDir = map (\<lambda>n. (n, [])) names, metadataFile = None, today = ''January 2026''\<rparr>"

definition sampleMetadata :: Metadata where
  "sampleMetadata =
     \<lparr>version = ''1.0.0'', organization = ''Supabase'', date = ''January 2026'',
      abstract = ''A guide.'', meta_references = [''https://supabase.com/docs'']\<rparr>"

text \<open>A \<open>JSON.parse\<close> for the samples: it knows one text and throws on every other.\<close>

definition sampleJson :: jsonParser where
  "sampleJson t = (if t = ''{sample}'' then Some sampleMetadata else None)"

text \<open>A run over one rule file, with the given metadata file and clock.\<close>

definition sampleRun :: "string option \<Rightarrow> string \<Rightarrow> fileSystem" where
  "sampleRun meta day = \<lparr>rulesDir = [(''schema-a.md'', [])], metadataFile = meta, today = day\<rparr>"

definition sampleSections :: string where
  "sampleSections =
     ''## 1. Query Performance (query)'' @ [CHR 0x0A] @ ''**Impact:** CRITICAL'' @ [CHR 0x0A]
     @ ''**Description:** Slow queries'' @ [CHR 0x0A, CHR 0x0A]
     @ ''## 4. Locking (lock)'' @ [CHR 0x0A] @ ''**Impact:** MEDIUM-HIGH'' @ [CHR 0x0A]
     @ ''**Description:** Deadlocks'' @ [CHR 0x0A]
     @ ''## 5. Security'' @ [CHR 0x0A]"

text \<open>A second collation for the samples: the order of the character codes after lower-casing.\<close>

definition foldOrder :: collation where
  "foldOrder a b = codeOrder (toLowerCase a) (toLowerCase b)"

text \<open>
  A second parser for the samples: three valid rules of section 3, two of them with
  titles that differ in case only.
\<close>

definition sampleParser2 :: parser where
  "sampleParser2 f =
     (case map_of
        [(''schema-a.md'', sampleRule ''Zebra Index'' ''HIGH'' [exIncorrect, exCorrect]),
         (''schema-g.md'', sampleRule ''add Index'' ''HIGH'' [exIncorrect, exCorrect]),
         (''schema-h.md'', sampleRule ''zebra index'' ''LOW'' [exIncorrect, exCorrect])] (fst f) of
        Some r \<Rightarrow> \<lparr>success = True, rule = Some r, parse_errors = [], parse_warnings = []\<rparr>
      | None \<Rightarrow>
          \<lparr>success = False, rule = None, parse_errors = [''Missing title''],
           parse_warnings = []\<rparr>)"

text \<open>A run over the named files, with a metadata file and the given clock.\<close>

definition sampleDir :: "string list \<Rightarrow> string \<Rightarrow> fileSystem" where
  "sampleDir names day =
     \<lparr>rulesDir = map (\<lambda>n. (n, [])) names, metadataFile = Some ''{sample}'', today = day\<rparr>"

text \<open>A rules directory that holds the section definitions and no rule.\<close>

definition sampleSectionsDir :: fileSystem where
  "sampleSectionsDir =
     \<lparr>rulesDir = [(''_sections.md'', sampleSections)], metadataFile = None,
      today = ''January 2026''\<rparr>"

section \<open>The validator\<close>

lemma checkTitle_eq: "checkTitle r d = (fst d @ titleErrors r, snd d)"
  by (simp add: checkTitle_def titleErrors_def pushError_def)

lemma checkExplanation_eq:
  "checkExplanation r d = (fst d @ explanationErrors r, snd d @ explanationWarnings r)"
  by (simp add: checkExplanation_def explanationErrors_def explanationWarnings_def
      pushError_def pushWarning_def)

lemma checkBadGood_eq:
  "checkBadGood exs d = (fst d @ badGoodErrors exs, snd d @ badGoodWarnings exs)"
  by (simp add: checkBadGood_def badGoodErrors_def badGoodWarnings_def pushError_def
      pushWarning_def)

lemma checkCode_eq:
  "checkCode exs d = (fst d @ (if hasCode exs then [] else [E_code]), snd d)"
  by (simp add: checkCode_def pushError_def)

lemma checkLanguage_eq: "checkLanguage exs d = (fst d, snd d @ languageWarnings exs)"
  by (induction exs arbitrary: d) (simp_all add: languageWarnings_def pushWarning_def)

lemma checkExamples_eq:
  "checkExamples r d = (fst d @ exampleErrors r, snd d @ exampleWarnings r)"
  by (simp add: checkExamples_def exampleErrors_def exampleWarnings_def pushError_def
      checkLanguage_eq checkCode_eq checkBadGood_eq)

lemma checkImpact_eq: "checkImpact r d = (fst d @ impactErrors r, snd d)"
  by (simp add: checkImpact_def impactErrors_def pushError_def)

lemma checkImpactDescription_eq:
  "checkImpactDescription r d = (fst d, snd d @ impactDescriptionWarnings r)"
  by (simp add: checkImpactDescription_def impactDescriptionWarnings_def pushWarning_def)

text \<open>A file that parsed: the result is the parser's lists followed by the checks'.\<close>

lemma validateRuleFile_parsed:
  assumes "success (P f)" and "rule (P f) = Some r"
  shows "errors (validateRuleFile P f) =
           parse_errors (P f) @ titleErrors r @ explanationErrors r @ exampleErrors r
           @ impactErrors r"
    and "warnings (validateRuleFile P f) =
           parse_warnings (P f) @ explanationWarnings r @ exampleWarnings r
           @ impactDescriptionWarnings r"
    and "valid (validateRuleFile P f) = (errors (validateRuleFile P f) = [])"
  using assms
  by (simp_all add: validateRuleFile_def Let_def checkTitle_eq checkExplanation_eq
      checkExamples_eq checkImpact_eq checkImpactDescription_eq)

text \<open>A file that did not parse: the early return.\<close>

lemma validateRuleFile_failed:
  assumes "\<not> success (P f) \<or> rule (P f) = None"
  shows "validateRuleFile P f =
           \<lparr>valid = False, errors = parse_errors (P f), warnings = parse_warnings (P f)\<rparr>"
  using assms by (auto simp add: validateRuleFile_def Let_def)

lemma validatorErrors_parsed:
  assumes "success (P f)" and "rule (P f) = Some r"
  shows "validatorErrors P f =
           titleErrors r @ explanationErrors r @ exampleErrors r @ impactErrors r"
  using assms by (simp add: validatorErrors_def validateRuleFile_parsed(1))

lemma validatorWarnings_parsed:
  assumes "success (P f)" and "rule (P f) = Some r"
  shows "validatorWarnings P f =
           explanationWarnings r @ exampleWarnings r @ impactDescriptionWarnings r"
  using assms by (simp add: validatorWarnings_def validateRuleFile_parsed(2))

lemma exampleRelated_messages:
  "\<not> exampleRelated E_title" "\<not> exampleRelated E_explanation"
  "\<not> exampleRelated W_explanation" "\<not> exampleRelated (E_impact v)"
  "\<not> exampleRelated W_impactDescription" "exampleRelated E_examples"
  by (simp_all add: exampleRelated_def E_title_def E_explanation_def W_explanation_def
      E_impact_def W_impactDescription_def E_examples_def E_bad_good_def W_bad_def E_good_def
      E_code_def)

lemma filter_exampleRelated_title [simp]: "filter exampleRelated (titleErrors r) = []"
  by (simp add: titleErrors_def exampleRelated_messages)

lemma filter_exampleRelated_explanation [simp]:
  "filter exampleRelated (explanationErrors r) = []"
  "filter exampleRelated (explanationWarnings r) = []"
  by (simp_all add: explanationErrors_def explanationWarnings_def exampleRelated_messages)

lemma filter_exampleRelated_impact [simp]:
  "filter exampleRelated (impactErrors r) = []"
  "filter exampleRelated (impactDescriptionWarnings r) = []"
  by (simp_all add: impactErrors_def impactDescriptionWarnings_def exampleRelated_messages)

text \<open>
  C8. A rule that parsed and has no examples: among the diagnostics about examples,
  the validator adds the missing-examples error and nothing else; it adds no warning
  about examples. The checks for bad and good labels, for code and for the language tag
  contribute nothing.
\<close>

theorem no_examples_only_missing_examples:
  assumes "success (P f)" and "rule (P f) = Some r" and "examples r = []"
  shows "filter exampleRelated (validatorErrors P f) = [E_examples] \<and>
         filter exampleRelated (validatorWarnings P f) = []"
  using assms
  by (simp add: validatorErrors_parsed validatorWarnings_parsed exampleErrors_def
      exampleWarnings_def exampleRelated_messages)

theorem no_examples_only_missing_examples_witness:
  "success (sampleParser (''schema-f.md'', [])) \<and>
   rule (sampleParser (''schema-f.md'', [])) = Some (sampleRule ''Find Gaps'' ''MEDIUM'' []) \<and>
   examples (sampleRule ''Find Gaps'' ''MEDIUM'' []) = [] \<and>
   filter exampleRelated (validatorErrors sampleParser (''schema-f.md'', [])) = [E_examples] \<and>
   filter exampleRelated (validatorWarnings sampleParser (''schema-f.md'', [])) = []"
  using no_examples_only_missing_examples [of sampleParser "(''schema-f.md'', [])"
      "sampleRule ''Find Gaps'' ''MEDIUM'' []"]
  by (simp add: sampleParser_def sampleRule_def)

section \<open>The loops over the files\<close>

lemma valid_imp_parsed:
  "valid (validateRuleFile P f) \<Longrightarrow> success (P f) \<and> (\<exists>r. rule (P f) = Some r)"
  by (cases "success (P f)"; cases "rule (P f)") (simp_all add: validateRuleFile_failed)

lemma valid_iff_errors:
  assumes "parserContract (P f)"
  shows "valid (validateRuleFile P f) = (errors (validateRuleFile P f) = [])"
proof (cases "success (P f) \<and> rule (P f) \<noteq> None")
  case True
  then show ?thesis by (auto simp add: validateRuleFile_parsed(3))
next
  case False
  then have "validateRuleFile P f =
      \<lparr>valid = False, errors = parse_errors (P f), warnings = parse_warnings (P f)\<rparr>"
    by (intro validateRuleFile_failed) auto
  moreover from False assms have "parse_errors (P f) \<noteq> []"
    by (auto simp add: parserContract_def)
  ultimately show ?thesis by simp
qed

lemma collectRules_acc: "collectRules P files acc = acc @ collectRules P files []"
proof (induction files arbitrary: acc)
  case Nil
  show ?case by simp
next
  case (Cons f files)
  have "\<And>r. collectRules P files (acc @ [r]) = acc @ collectRules P files [r]"
    using Cons.IH [of "acc @ [r]" for r] Cons.IH [of "[r]" for r] by simp
  then show ?case
    using Cons.IH [of acc] by (simp add: Let_def split: option.splits)
qed

lemma collectRules_Cons:
  "collectRules P (f # files) [] =
     (if valid (validateRuleFile P f)
      then (case rule (P f) of Some r \<Rightarrow> [r] | None \<Rightarrow> []) @ collectRules P files []
      else collectRules P files [])"
  using valid_imp_parsed [of P f] collectRules_acc [of P files "[r]" for r]
  by (auto simp add: Let_def split: option.splits)

lemma collectRules_eq:
  assumes "\<forall>f \<in> set files. parserContract (P f)"
  shows "collectRules P files [] = rulesWithoutErrors P files"
  using assms
proof (induction files)
  case Nil
  show ?case by (simp add: rulesWithoutErrors_def)
next
  case (Cons f files)
  then have "collectRules P files [] = rulesWithoutErrors P files" by simp
  moreover have "valid (validateRuleFile P f) = (errors (validateRuleFile P f) = [])"
    using Cons.prems by (simp add: valid_iff_errors)
  ultimately show ?case
    by (simp only: collectRules_Cons) (simp add: rulesWithoutErrors_def)
qed

lemma extractLoop_eq:
  "extractLoop P files st = foldl (\<lambda>s r. extractRule r s) st (collectRules P files [])"
proof (induction files arbitrary: st)
  case Nil
  show ?case by simp
next
  case (Cons f files)
  show ?case
    using valid_imp_parsed [of P f]
    by (simp only: collectRules_Cons) (auto simp add: Cons.IH Let_def split: option.splits)
qed

section \<open>The samples, evaluated\<close>

lemma sampleParser_simps:
  "sampleParser (''schema-a.md'', c) =
     \<lparr>success = True, rule = Some (sampleRule ''Zebra Index'' ''HIGH'' [exIncorrect, exCorrect]),
      parse_errors = [], parse_warnings = []\<rparr>"
  "sampleParser (''schema-b.md'', c) =
     \<lparr>success = True, rule = Some (sampleRule ''Avoid Bloat'' ''HIGH'' [exIncorrect, exCorrect]),
      parse_errors = [], parse_warnings = []\<rparr>"
  "sampleParser (''schema-c.md'', c) =
     \<lparr>success = True, rule = Some (sampleRule ''Cache Plans'' ''SEVERE'' [exIncorrect, exCorrect]),
      parse_errors = [], parse_warnings = []\<rparr>"
  "sampleParser (''schema-d.md'', c) =
     \<lparr>success = True, rule = Some (sampleRule ''Drop Unused'' ''LOW'' [exIncorrect]),
      parse_errors = [], parse_warnings = []\<rparr>"
  "sampleParser (''schema-e.md'', c) =
     \<lparr>success = True, rule = Some (sampleRule ''Expire Rows'' ''LOW'' [exIncorrectExample]),
      parse_errors = [], parse_warnings = []\<rparr>"
  "sampleParser (''schema-f.md'', c) =
     \<lparr>success = True, rule = Some (sampleRule ''Find Gaps'' ''MEDIUM'' []),
      parse_errors = [], parse_warnings = []\<rparr>"
  "sampleParser (''notes.md'', c) =
     \<lparr>success = False, rule = None, parse_errors = [''Missing title''], parse_warnings = []\<rparr>"
  by (simp_all add: sampleParser_def)

lemma label_checks:
  "isBadExample ''Incorrect''" "isGoodExample ''Incorrect''"
  "\<not> isBadExample ''Correct''" "isGoodExample ''Correct''"
  "isBadExample ''Incorrect Example''" "isGoodExample ''Incorrect Example''"
  by (simp_all add: isBadExample_def isGoodExample_def toLowerCase_def toLowerChar_def)

lemmas validator_eval =
  validateRuleFile_def sampleParser_simps Let_def checkTitle_eq checkExplanation_eq
  checkExamples_eq checkImpact_eq checkImpactDescription_eq titleErrors_def
  explanationErrors_def explanationWarnings_def exampleErrors_def exampleWarnings_def
  impactErrors_def impactDescriptionWarnings_def badGoodErrors_def badGoodWarnings_def
  languageWarnings_def hasBad_def hasGood_def hasCode_def label_checks sampleRule_def
  exIncorrect_def exCorrect_def exIncorrectExample_def trim_def isWhiteSpace_def truthy_def
  IMPACT_LEVELS_def

lemma validate_samples:
  "validateRuleFile sampleParser (''schema-a.md'', c) =
     \<lparr>valid = True, errors = [], warnings = [W_language ''Correct'']\<rparr>"
  "validateRuleFile sampleParser (''schema-b.md'', c) =
     \<lparr>valid = True, errors = [], warnings = [W_language ''Correct'']\<rparr>"
  "validateRuleFile sampleParser (''schema-c.md'', c) =
     \<lparr>valid = False, errors = [E_impact ''SEVERE''], warnings = [W_language ''Correct'']\<rparr>"
  "validateRuleFile sampleParser (''schema-d.md'', c) =
     \<lparr>valid = True, errors = [], warnings = []\<rparr>"
  "validateRuleFile sampleParser (''schema-e.md'', c) =
     \<lparr>valid = True, errors = [], warnings = []\<rparr>"
  "validateRuleFile sampleParser (''notes.md'', c) =
     \<lparr>valid = False, errors = [''Missing title''], warnings = []\<rparr>"
  by (simp_all add: validator_eval)

lemma file_filter_samples:
  "endsWith ''schema-a.md'' ''.md''" "\<not> startsWith ''schema-a.md'' ''_''"
  "endsWith ''schema-b.md'' ''.md''" "\<not> startsWith ''schema-b.md'' ''_''"
  "endsWith ''schema-c.md'' ''.md''" "\<not> startsWith ''schema-c.md'' ''_''"
  "endsWith ''schema-d.md'' ''.md''" "\<not> startsWith ''schema-d.md'' ''_''"
  "endsWith ''schema-e.md'' ''.md''" "\<not> startsWith ''schema-e.md'' ''_''"
  "endsWith ''notes.md'' ''.md''" "\<not> startsWith ''notes.md'' ''_''"
  "endsWith ''_template.md'' ''.md''" "startsWith ''_template.md'' ''_''"
  "\<not> endsWith ''notes.txt'' ''.md''" "\<not> startsWith ''notes.txt'' ''_''"
  by (simp_all add: endsWith_def startsWith_def suffix_to_prefix)

section \<open>Validity and inclusion\<close>

text \<open>
  C6. Under the parser's contract, a validation result is valid exactly when its list of
  errors is empty, whatever its warnings; and the build and the extraction work on
  exactly the rules of the files without errors: the grouped and numbered rules of the
  build come from them, and the test cases are the extraction loop run over them.
\<close>

theorem valid_iff_no_errors:
  assumes "\<forall>f \<in> set (rulesDir fs). parserContract (P f)"
  shows "(\<forall>f \<in> set (rulesDir fs).
            valid (validateRuleFile P f) = (errors (validateRuleFile P f) = [])) \<and>
         rulesBySection lc P fs =
           sortAndAssign lc (groupRules (rulesWithoutErrors P (build_ruleFiles fs)) []) \<and>
         extractTestCases P fs =
           fst (foldl (\<lambda>s r. extractRule r s) ([], Map.empty)
                  (rulesWithoutErrors P (extract_ruleFiles fs)))"
proof -
  have "\<forall>f \<in> set (build_ruleFiles fs). parserContract (P f)"
    and "\<forall>f \<in> set (extract_ruleFiles fs). parserContract (P f)"
    using assms by (simp_all add: build_ruleFiles_def extract_ruleFiles_def)
  then show ?thesis
    using assms
    by (simp add: valid_iff_errors rulesBySection_def extractTestCases_def extractLoop_eq
        collectRules_eq)
qed

theorem valid_iff_no_errors_witness:
  "parserContract (sampleParser (''schema-a.md'', [])) \<and>
   parserContract (sampleParser (''notes.md'', [])) \<and>
   warnings (validateRuleFile sampleParser (''schema-a.md'', [])) = [W_language ''Correct''] \<and>
   valid (validateRuleFile sampleParser (''schema-a.md'', [])) \<and>
   errors (validateRuleFile sampleParser (''schema-a.md'', [])) = [] \<and>
   \<not> valid (validateRuleFile sampleParser (''notes.md'', [])) \<and>
   rulesBySection codeOrder sampleParser (sampleFs [''schema-a.md'', ''notes.md'']) =
     sortAndAssign codeOrder
       (groupRules [sampleRule ''Zebra Index'' ''HIGH'' [exIncorrect, exCorrect]] [])"
  using valid_iff_no_errors [of "sampleFs [''schema-a.md'', ''notes.md'']" sampleParser codeOrder]
  by (simp add: sampleFs_def parserContract_def sampleParser_simps validate_samples
      rulesWithoutErrors_def build_ruleFiles_def file_filter_samples)

section \<open>A file that is not valid is left out\<close>

lemma collectRules_skip:
  "\<not> valid (validateRuleFile P f) \<Longrightarrow>
   collectRules P (filter (\<lambda>g. g \<noteq> f) files) [] = collectRules P files []"
proof (induction files)
  case Nil
  show ?case by simp
next
  case (Cons g files)
  then show ?case
    by (cases "g = f") (simp_all add: collectRules_Cons del: collectRules.simps)
qed

lemma map_of_filter_other:
  "k \<noteq> fst f \<Longrightarrow> map_of (filter (\<lambda>g. g \<noteq> f) xs) k = map_of xs k"
  by (induction xs) auto

lemma ruleFile_not_sections:
  "\<not> startsWith n ''_'' \<Longrightarrow> n \<noteq> ''_sections.md''"
  by (auto simp add: startsWith_def)

lemma build_ruleFiles_withoutFile:
  "build_ruleFiles (withoutFile f fs) = filter (\<lambda>g. g \<noteq> f) (build_ruleFiles fs)"
  by (simp add: build_ruleFiles_def withoutFile_def conj_commute)

lemma extract_ruleFiles_withoutFile:
  "extract_ruleFiles (withoutFile f fs) = filter (\<lambda>g. g \<noteq> f) (extract_ruleFiles fs)"
  by (simp add: extract_ruleFiles_def withoutFile_def conj_commute)

lemma build_without_invalid:
  assumes "\<not> startsWith (fst f) ''_''" and "\<not> valid (validateRuleFile P f)"
  shows "buildAgents lc P J (withoutFile f fs) = buildAgents lc P J fs"
proof -
  have "sectionsFile (withoutFile f fs) = sectionsFile fs"
    using ruleFile_not_sections [OF assms(1)]
    by (simp add: sectionsFile_def withoutFile_def map_of_filter_other)
  then have "parseSections (withoutFile f fs) = parseSections fs"
    by (simp add: parseSections_def)
  moreover have "rulesBySection lc P (withoutFile f fs) = rulesBySection lc P fs"
    by (simp add: rulesBySection_def build_ruleFiles_withoutFile collectRules_skip [OF assms(2)])
  moreover have "loadMetadata J (withoutFile f fs) = loadMetadata J fs"
    by (simp add: loadMetadata_def withoutFile_def split: option.splits)
  ultimately show ?thesis by (simp add: buildAgents_def split: sum.splits)
qed

lemma extract_without_invalid:
  assumes "\<not> valid (validateRuleFile P f)"
  shows "extractTestCases P (withoutFile f fs) = extractTestCases P fs"
  by (simp add: extractTestCases_def extractLoop_eq extract_ruleFiles_withoutFile
      collectRules_skip [OF assms])

lemma E_impact_text:
  "E_impact v = ''Invalid impact level: '' @ v @
     ''. Must be one of: CRITICAL, HIGH, MEDIUM-HIGH, MEDIUM, LOW-MEDIUM, LOW''"
  by (simp add: E_impact_def IMPACT_LEVELS_def)

lemma E_impact_distinct:
  "E_impact v \<noteq> E_title" "E_impact v \<noteq> E_explanation" "E_impact v \<noteq> E_examples"
  "E_impact v \<noteq> E_bad_good" "E_impact v \<noteq> E_good" "E_impact v \<noteq> E_code"
  by (simp_all add: E_impact_def E_title_def E_explanation_def E_examples_def E_bad_good_def
      E_good_def E_code_def)

text \<open>
  C5. A rule that parsed with an impact outside the six levels: the validator adds
  exactly one error with the text \<open>Invalid impact level: <value>. Must be one of:\<close>
  followed by the six levels, and it is the only error the validator adds when the
  other checks pass; the result is not valid; and the build's document and the list of
  test cases are what they are without the file.
\<close>

theorem invalid_impact_one_error_and_excluded:
  assumes "\<not> startsWith (fst f) ''_''" and "success (P f)" and "rule (P f) = Some r" and "impact r \<notin> set IMPACT_LEVELS"
  shows "count_list (validatorErrors P f) (E_impact (impact r)) = 1 \<and>
         E_impact (impact r) =
           ''Invalid impact level: '' @ impact r @
           ''. Must be one of: CRITICAL, HIGH, MEDIUM-HIGH, MEDIUM, LOW-MEDIUM, LOW'' \<and>
         (titleErrors r @ explanationErrors r @ exampleErrors r = [] \<longrightarrow>
            validatorErrors P f = [E_impact (impact r)]) \<and>
         \<not> valid (validateRuleFile P f) \<and>
         buildAgents lc P J fs = buildAgents lc P J (withoutFile f fs) \<and>
         extractTestCases P fs = extractTestCases P (withoutFile f fs)"
proof -
  have errs: "validatorErrors P f =
      titleErrors r @ explanationErrors r @ exampleErrors r @ [E_impact (impact r)]"
    using assms by (simp add: validatorErrors_parsed impactErrors_def)
  have "count_list (titleErrors r) (E_impact (impact r)) = 0"
    "count_list (explanationErrors r) (E_impact (impact r)) = 0"
    "count_list (exampleErrors r) (E_impact (impact r)) = 0"
    using E_impact_distinct [of "impact r"]
    by (auto simp add: titleErrors_def explanationErrors_def exampleErrors_def badGoodErrors_def)
  then have one: "count_list (validatorErrors P f) (E_impact (impact r)) = 1"
    by (simp add: errs)
  have invalid: "\<not> valid (validateRuleFile P f)"
    using assms by (simp add: validateRuleFile_parsed impactErrors_def)
  show ?thesis
    using one invalid errs build_without_invalid [OF assms(1) invalid]
      extract_without_invalid [OF invalid]
    by (simp add: E_impact_text)
qed

theorem invalid_impact_one_error_and_excluded_witness:
  "\<not> startsWith (fst (''schema-c.md'', [])) ''_'' \<and>
   success (sampleParser (''schema-c.md'', [])) \<and>
   rule (sampleParser (''schema-c.md'', [])) =
     Some (sampleRule ''Cache Plans'' ''SEVERE'' [exIncorrect, exCorrect]) \<and>
   impact (sampleRule ''Cache Plans'' ''SEVERE'' [exIncorrect, exCorrect]) \<notin> set IMPACT_LEVELS \<and>
   validatorErrors sampleParser (''schema-c.md'', []) =
     [''Invalid impact level: SEVERE. Must be one of: CRITICAL, HIGH, MEDIUM-HIGH, MEDIUM, LOW-MEDIUM, LOW''] \<and>
   \<not> valid (validateRuleFile sampleParser (''schema-c.md'', [])) \<and>
   buildAgents codeOrder sampleParser (\<lambda>t. None) (sampleFs [''schema-a.md'', ''schema-c.md'']) =
     buildAgents codeOrder sampleParser (\<lambda>t. None) (sampleFs [''schema-a.md'']) \<and>
   extractTestCases sampleParser (sampleFs [''schema-a.md'', ''schema-c.md'']) =
     extractTestCases sampleParser (sampleFs [''schema-a.md''])"
  using invalid_impact_one_error_and_excluded [of "(''schema-c.md'', [])" sampleParser
      "sampleRule ''Cache Plans'' ''SEVERE'' [exIncorrect, exCorrect]" codeOrder "\<lambda>t. None"
      "sampleFs [''schema-a.md'', ''schema-c.md'']"]
  by (simp add: file_filter_samples sampleParser_simps validate_samples withoutFile_def
      sampleFs_def validatorErrors_def IMPACT_LEVELS_def sampleRule_def E_impact_def)

section \<open>Labels that pass both checks\<close>

text \<open>
  The extractor's copies of the two checks are the validator's, and the extractor takes
  the bad check first: a label that passes it is bad there, whatever the good check says.
\<close>

lemma extract_checks_same:
  "extract_isBadExample = isBadExample" "extract_isGoodExample = isGoodExample"
  by (simp_all add: fun_eq_iff extract_isBadExample_def isBadExample_def
      extract_isGoodExample_def isGoodExample_def)

lemma typeOfExample_classify: "typeOfExample e = classify (label e)"
  by (simp add: typeOfExample_def classify_def extract_checks_same)

lemma classify_bad_first: "isBadExample l \<Longrightarrow> classify l = Some Bad"
  by (simp add: classify_def)

text \<open>
  A text that has \<open>incorrect\<close> in it has \<open>correct\<close> in it: every label that is bad
  by the word \<open>incorrect\<close> passes the good check as well.
\<close>

lemma includesStr_iff: "includesStr s n = (\<exists>p q. s = p @ n @ q)"
proof (induction s)
  case Nil
  show ?case by auto
next
  case (Cons c cs)
  show ?case
  proof
    assume "includesStr (c # cs) n"
    then consider "prefix n (c # cs)" | "includesStr cs n" by auto
    then show "\<exists>p q. c # cs = p @ n @ q"
    proof cases
      case 1
      then obtain q where "c # cs = n @ q" by (auto simp add: prefix_def)
      then have "c # cs = [] @ n @ q" by simp
      then show ?thesis by blast
    next
      case 2
      then obtain p q where "cs = p @ n @ q" using Cons.IH by blast
      then have "c # cs = (c # p) @ n @ q" by simp
      then show ?thesis by blast
    qed
  next
    assume "\<exists>p q. c # cs = p @ n @ q"
    then obtain p q where pq: "c # cs = p @ n @ q" by blast
    show "includesStr (c # cs) n"
    proof (cases p)
      case Nil
      with pq have "prefix n (c # cs)" by (simp add: prefix_def)
      then show ?thesis by simp
    next
      case (Cons a p')
      with pq have "cs = p' @ n @ q" by simp
      then have "includesStr cs n" using Cons.IH by blast
      then show ?thesis by simp
    qed
  qed
qed

lemma incorrect_includes_correct:
  assumes "includesStr s ''incorrect''"
  shows "includesStr s ''correct''"
proof -
  from assms obtain p q where "s = p @ ''incorrect'' @ q"
    unfolding includesStr_iff by blast
  then have "s = (p @ ''in'') @ ''correct'' @ q" by simp
  then show ?thesis unfolding includesStr_iff by blast
qed

lemma incorrect_label_is_good:
  "includesStr (toLowerCase l) ''incorrect'' \<Longrightarrow> isBadExample l \<and> isGoodExample l"
  by (simp add: isBadExample_def isGoodExample_def incorrect_includes_correct)

text \<open>
  The validator's two flags against the bad-first classification: a rule has a bad
  label exactly when some example classifies as bad, but it can have a good label while
  no example classifies as good. The four outcomes of the check are by the flags.
\<close>

lemma hasBad_classify: "hasBad exs = (\<exists>e \<in> set exs. classify (label e) = Some Bad)"
  by (auto simp add: hasBad_def classify_def list_ex_iff)

lemma hasGood_classify:
  "\<not> hasBad exs \<Longrightarrow> hasGood exs = (\<exists>e \<in> set exs. classify (label e) = Some Good)"
  by (auto simp add: hasBad_def hasGood_def classify_def list_ex_iff)

lemma checkBadGood_cases:
  "\<not> hasBad exs \<Longrightarrow> \<not> hasGood exs \<Longrightarrow> checkBadGood exs d = pushError E_bad_good d"
  "\<not> hasBad exs \<Longrightarrow> hasGood exs \<Longrightarrow> checkBadGood exs d = pushWarning W_bad d"
  "hasBad exs \<Longrightarrow> \<not> hasGood exs \<Longrightarrow> checkBadGood exs d = pushError E_good d"
  "hasBad exs \<Longrightarrow> hasGood exs \<Longrightarrow> checkBadGood exs d = d"
  by (simp_all add: checkBadGood_def)

text \<open>
  C4, at a rule whose only example is labelled \<open>Incorrect\<close>: the example is bad (for
  the extractor and by the bad-first classification) and the rule has no good example,
  yet the validator reports no error and the rule is valid. The validator computes
  "some label passes the good check" on its own, and \<open>Incorrect\<close> passes it.
\<close>

theorem only_incorrect_example_passes:
  "rule (sampleParser (''schema-d.md'', [])) =
     Some (sampleRule ''Drop Unused'' ''LOW'' [exIncorrect]) \<and>
   examples (sampleRule ''Drop Unused'' ''LOW'' [exIncorrect]) = [exIncorrect] \<and>
   classify (label exIncorrect) = Some Bad \<and>
   typeOfExample exIncorrect = Some Bad \<and>
   validateRuleFile sampleParser (''schema-d.md'', []) =
     \<lparr>valid = True, errors = [], warnings = []\<rparr>"
  by (simp add: typeOfExample_classify classify_def label_checks validate_samples
      sampleParser_simps sampleRule_def exIncorrect_def)

text \<open>
  C7, at the label \<open>Incorrect Example\<close>: the extractor gives it the type bad, the first
  check that succeeds; the validator runs both checks over the labels and both succeed
  on it, so the rule whose only example has this label counts as having a good example
  and gets no missing-good-example error.
\<close>

theorem incorrect_example_label_counts_as_good:
  "isBadExample ''Incorrect Example'' \<and> isGoodExample ''Incorrect Example'' \<and>
   typeOfExample exIncorrectExample = Some Bad \<and>
   hasBad [exIncorrectExample] \<and> hasGood [exIncorrectExample] \<and>
   checkBadGood [exIncorrectExample] ([], []) = ([], []) \<and>
   E_good \<notin> set (errors (validateRuleFile sampleParser (''schema-e.md'', [])))"
  by (simp add: typeOfExample_classify classify_def label_checks validate_samples
      hasBad_def hasGood_def checkBadGood_def exIncorrectExample_def)

section \<open>Identifiers in the extractor and in the build\<close>

lemma codeOrder_samples:
  "codeOrder ''Zebra Index'' ''Avoid Bloat'' = 1"
  "codeOrder ''Avoid Bloat'' ''Zebra Index'' = - 1"
  by (simp_all add: codeOrder_def less_char_def)

lemma showNat_digits:
  "showNat 1 = ''1''" "showNat 2 = ''2''" "showNat 3 = ''3''"
  "showNat (Suc 0) = ''1''" "showNat (Suc (Suc 0)) = ''2''"
  by (simp_all add: showNat.simps digitChar_def)

text \<open>
  C1, at two valid rules of section 3 listed as \<open>schema-a.md\<close> (title Zebra Index) and
  \<open>schema-b.md\<close> (title Avoid Bloat): the extractor numbers the rules in the order of
  the files, so its test cases carry 3.1 for Zebra Index and 3.2 for Avoid Bloat; the
  build sorts the section by title first, so the document has Avoid Bloat as 3.1 and
  Zebra Index as 3.2.
\<close>

theorem extractor_ids_differ_from_build_ids:
  "map (\<lambda>t. (ruleTitle t, ruleId t))
     (extractTestCases sampleParser (sampleFs [''schema-a.md'', ''schema-b.md''])) =
     [(''Zebra Index'', ''3.1''), (''Zebra Index'', ''3.1''),
      (''Avoid Bloat'', ''3.2''), (''Avoid Bloat'', ''3.2'')] \<and>
   map (\<lambda>r. (title r, rule_id r))
     (rulesOf (rulesBySection codeOrder sampleParser
        (sampleFs [''schema-a.md'', ''schema-b.md''])) 3) =
     [(''Avoid Bloat'', Some ''3.1''), (''Zebra Index'', Some ''3.2'')]"
  by (simp add: extractTestCases_def extract_ruleFiles_def sampleFs_def file_filter_samples
      validate_samples sampleParser_simps extractRule_def sampleRule_def exIncorrect_def
      exCorrect_def typeOfExample_classify classify_def label_checks trim_def isWhiteSpace_def
      showNat_digits rulesBySection_def build_ruleFiles_def rulesOf_def sortAndAssign_def
      sortStable_def byTitle_def codeOrder_samples idText_def Let_def)

section \<open>Grouping, sorting and numbering\<close>

lemma map_of_mapSet: "map_of (mapSet k v m) k' = (if k' = k then Some v else map_of m k')"
  by (induction m) auto

lemma rulesOf_mapSet: "rulesOf (mapSet k v m) k' = (if k' = k then v else rulesOf m k')"
  by (simp add: rulesOf_def map_of_mapSet)

lemma rulesOf_groupRules:
  "rulesOf (groupRules rs m) s = rulesOf m s @ filter (\<lambda>r. section_no r = s) rs"
  by (induction rs arbitrary: m) (simp_all add: rulesOf_mapSet Let_def)

lemma rulesOf_empty: "rulesOf [] s = []"
  by (simp add: rulesOf_def)

lemma rulesOf_sortAndAssign:
  "rulesOf (sortAndAssign lc m) s = assignFrom s 0 (sortStable (byTitle lc) (rulesOf m s))"
  by (induction m) (auto simp add: rulesOf_def sortAndAssign_def sortStable_def)

lemma assignFrom_enumerate:
  "assignFrom s i rs = map (\<lambda>(j, r). r\<lparr>rule_id := Some (idText s j)\<rparr>) (enumerate i rs)"
  by (induction rs arbitrary: i) simp_all

lemma sortStable_Cons: "sortStable cmp (x # xs) = insertSorted cmp x (sortStable cmp xs)"
  by (simp add: sortStable_def)

lemma mset_insertSorted: "mset (insertSorted cmp x ys) = add_mset x (mset ys)"
  by (induction ys) simp_all

lemma mset_sortStable: "mset (sortStable cmp xs) = mset xs"
  by (induction xs) (simp_all add: sortStable_Cons mset_insertSorted, simp add: sortStable_def)

lemma set_insertSorted: "set (insertSorted cmp x ys) = insert x (set ys)"
  by (induction ys) auto

lemma consistent_swap: "consistent cmp \<Longrightarrow> 0 < cmp a b \<Longrightarrow> cmp b a \<le> 0"
  unfolding consistent_def by (metis less_le_not_le)

lemma consistent_trans:
  "consistent cmp \<Longrightarrow> cmp a b \<le> 0 \<Longrightarrow> cmp b c \<le> 0 \<Longrightarrow> cmp a c \<le> 0"
  unfolding consistent_def by blast

lemma consistent_sym: "consistent cmp \<Longrightarrow> cmp a b = 0 \<Longrightarrow> cmp b a = 0"
  unfolding consistent_def by (metis less_irrefl linorder_neqE_linordered_idom)

lemma sorted_insertSorted:
  assumes "consistent cmp" and "sorted_wrt (\<lambda>a b. cmp a b \<le> 0) ys"
  shows "sorted_wrt (\<lambda>a b. cmp a b \<le> 0) (insertSorted cmp x ys)"
  using assms(2)
proof (induction ys)
  case Nil
  show ?case by simp
next
  case (Cons y ys)
  show ?case
  proof (cases "cmp x y \<le> 0")
    case True
    then have "\<forall>z \<in> set ys. cmp x z \<le> 0"
      using Cons.prems consistent_trans [OF assms(1)] by auto
    with True Cons.prems show ?thesis by simp
  next
    case False
    then have "cmp y x \<le> 0" using consistent_swap [OF assms(1)] by simp
    with False Cons show ?thesis by (simp add: set_insertSorted)
  qed
qed

lemma sorted_sortStable:
  "consistent cmp \<Longrightarrow> sorted_wrt (\<lambda>a b. cmp a b \<le> 0) (sortStable cmp xs)"
  by (induction xs) (simp add: sortStable_def, simp add: sortStable_Cons sorted_insertSorted)

lemma stable_insertSorted:
  assumes "consistent cmp"
  shows "filter (\<lambda>y. cmp y t = 0) (insertSorted cmp x ys) = filter (\<lambda>y. cmp y t = 0) (x # ys)"
proof (induction ys)
  case Nil
  show ?case by simp
next
  case (Cons y ys)
  show ?case
  proof (cases "cmp x y \<le> 0")
    case True
    then show ?thesis by simp
  next
    case False
    have "\<not> (cmp x t = 0 \<and> cmp y t = 0)"
    proof
      assume eq: "cmp x t = 0 \<and> cmp y t = 0"
      then have "cmp t y = 0" using consistent_sym [OF assms] by blast
      with eq have "cmp x y \<le> 0" using consistent_trans [OF assms, of x t y] by simp
      with False show False by simp
    qed
    with False Cons show ?thesis by auto
  qed
qed

lemma stable_sortStable:
  "consistent cmp \<Longrightarrow>
   filter (\<lambda>y. cmp y t = 0) (sortStable cmp xs) = filter (\<lambda>y. cmp y t = 0) xs"
  by (induction xs) (simp add: sortStable_def, simp add: sortStable_Cons stable_insertSorted)

lemma consistent_byTitle: "consistent lc \<Longrightarrow> consistent (byTitle lc)"
  unfolding consistent_def byTitle_def by blast

lemma consistent_codeOrder: "consistent codeOrder"
  unfolding consistent_def codeOrder_def by auto

text \<open>
  C2. For a consistent collation and every section number \<open>s\<close>: the rules that the
  build holds for \<open>s\<close> are the valid rules of that section, sorted by title with the
  collation (each rule not after the next), with rules of equal title in their original
  order, and the rule at position \<open>i\<close> (from 0) has the id \<open>s.(i+1)\<close>. With the
  sample collation, the section-3 rules titled Zebra Index and Avoid Bloat get 3.2 and
  3.1, in either order of the files.
\<close>

theorem ids_follow_title_order:
  assumes "consistent lc"
  shows "\<exists>S. mset S = mset (filter (\<lambda>r. section_no r = s) (collectRules P (build_ruleFiles fs) [])) \<and>
           sorted_wrt (\<lambda>a b. lc (title a) (title b) \<le> 0) S \<and>
           (\<forall>t. filter (\<lambda>r. lc (title r) t = 0) S =
                filter (\<lambda>r. lc (title r) t = 0)
                  (filter (\<lambda>r. section_no r = s) (collectRules P (build_ruleFiles fs) []))) \<and>
           rulesOf (rulesBySection lc P fs) s =
             map (\<lambda>(i, r). r\<lparr>rule_id := Some (showNat s @ ''.'' @ showNat (i + 1))\<rparr>)
               (enumerate 0 S)"
proof -
  define F where "F = filter (\<lambda>r. section_no r = s) (collectRules P (build_ruleFiles fs) [])"
  define S where "S = sortStable (byTitle lc) F"
  have c: "consistent (byTitle lc)" using assms by (rule consistent_byTitle)
  have "mset S = mset F" by (simp add: S_def mset_sortStable)
  moreover have "sorted_wrt (\<lambda>a b. lc (title a) (title b) \<le> 0) S"
    using sorted_sortStable [OF c, of F] by (simp add: S_def byTitle_def)
  moreover have "filter (\<lambda>r. lc (title r) t = 0) S = filter (\<lambda>r. lc (title r) t = 0) F" for t
    using stable_sortStable [OF c, of "undefined\<lparr>title := t\<rparr>" F]
    by (simp add: S_def byTitle_def)
  moreover have "rulesOf (rulesBySection lc P fs) s =
      map (\<lambda>(i, r). r\<lparr>rule_id := Some (showNat s @ ''.'' @ showNat (i + 1))\<rparr>) (enumerate 0 S)"
    by (simp add: rulesBySection_def rulesOf_sortAndAssign rulesOf_groupRules rulesOf_empty
        assignFrom_enumerate S_def F_def idText_def)
  ultimately show ?thesis unfolding F_def by blast
qed

theorem ids_follow_title_order_witness:
  "consistent codeOrder \<and>
   rulesOf (rulesBySection codeOrder sampleParser (sampleFs [''schema-a.md'', ''schema-b.md''])) 3 =
     [(sampleRule ''Avoid Bloat'' ''HIGH'' [exIncorrect, exCorrect])\<lparr>rule_id := Some ''3.1''\<rparr>,
      (sampleRule ''Zebra Index'' ''HIGH'' [exIncorrect, exCorrect])\<lparr>rule_id := Some ''3.2''\<rparr>] \<and>
   rulesOf (rulesBySection codeOrder sampleParser (sampleFs [''schema-b.md'', ''schema-a.md''])) 3 =
     [(sampleRule ''Avoid Bloat'' ''HIGH'' [exIncorrect, exCorrect])\<lparr>rule_id := Some ''3.1''\<rparr>,
      (sampleRule ''Zebra Index'' ''HIGH'' [exIncorrect, exCorrect])\<lparr>rule_id := Some ''3.2''\<rparr>]"
  using ids_follow_title_order [OF consistent_codeOrder, of 3 sampleParser
      "sampleFs [''schema-a.md'', ''schema-b.md'']"]
  by (simp add: consistent_codeOrder rulesBySection_def build_ruleFiles_def sampleFs_def
      file_filter_samples validate_samples sampleParser_simps rulesOf_def sortAndAssign_def
      sortStable_def byTitle_def codeOrder_samples idText_def showNat_digits sampleRule_def Let_def)

section \<open>When the two numberings agree\<close>

text \<open>
  The test cases are the examples of the valid rules under the extractor's identifiers.
  For a section whose valid rules are listed in the order of their titles, these
  identifiers are the ones of the build: the extractor counts in the order of the files
  and the sort of the build changes nothing. For another listing they can differ, as
  in the sample above.
\<close>

lemma extractExamples_acc:
  "extractExamples rid r es acc = acc @ extractExamples rid r es []"
proof (induction es arbitrary: acc)
  case Nil
  show ?case by simp
next
  case (Cons e es)
  show ?case
    using Cons.IH [of acc] Cons.IH [of "acc @ [t]" for t] Cons.IH [of "[t]" for t]
    by (simp split: option.splits)
qed

lemma extract_by_ids:
  "fst (foldl (\<lambda>s r. extractRule r s) st rs) =
     fst st @ concat (map (\<lambda>(r, rid). extractExamples rid r (examples r) [])
                   (extractorIds rs (snd st)))"
proof (induction rs arbitrary: st)
  case Nil
  show ?case by simp
next
  case (Cons r rs)
  define c where "c = (case snd st (section_no r) of None \<Rightarrow> 0 | Some c \<Rightarrow> c) + 1"
  define rid where "rid = showNat (section_no r) @ ''.'' @ showNat c"
  have step: "extractRule r st =
      (fst st @ extractExamples rid r (examples r) [], (snd st)(section_no r \<mapsto> c))"
    using extractExamples_acc [of rid r "examples r" "fst st"]
    by (simp add: extractRule_def Let_def c_def rid_def)
  have ids: "extractorIds (r # rs) (snd st) =
      (r, rid) # extractorIds rs ((snd st)(section_no r \<mapsto> c))"
    by (simp add: Let_def c_def rid_def)
  have "fst (foldl (\<lambda>s r. extractRule r s) st (r # rs)) =
      fst (foldl (\<lambda>s r. extractRule r s) (extractRule r st) rs)"
    by simp
  also have "\<dots> = fst (extractRule r st) @
      concat (map (\<lambda>(r, rid). extractExamples rid r (examples r) [])
        (extractorIds rs (snd (extractRule r st))))"
    by (rule Cons.IH)
  also have "\<dots> = fst st @
      concat (map (\<lambda>(r, rid). extractExamples rid r (examples r) [])
        (extractorIds (r # rs) (snd st)))"
    unfolding step ids by simp
  finally show ?case .
qed

lemma extractorIds_section:
  "map (\<lambda>(r, rid). r\<lparr>rule_id := Some rid\<rparr>)
     (filter (\<lambda>(r, rid). section_no r = s) (extractorIds rs cnt)) =
   assignFrom s (case cnt s of None \<Rightarrow> 0 | Some c \<Rightarrow> c) (filter (\<lambda>r. section_no r = s) rs)"
proof (induction rs arbitrary: cnt)
  case Nil
  show ?case by simp
next
  case (Cons r rs)
  show ?case
    by (cases "section_no r = s") (simp_all add: Cons.IH Let_def idText_def)
qed

lemma sortStable_sorted:
  assumes "sorted_wrt (\<lambda>a b. cmp a b \<le> 0) xs"
  shows "sortStable cmp xs = xs"
  using assms
proof (induction xs)
  case Nil
  show ?case by (simp add: sortStable_def)
next
  case (Cons x xs)
  then have "sortStable cmp xs = xs" by simp
  with Cons.prems show ?case by (cases xs) (simp_all add: sortStable_Cons)
qed

lemma ids_agree_when_listed_by_title:
  assumes "sorted_wrt (\<lambda>a b. lc (title a) (title b) \<le> 0)
             (filter (\<lambda>r. section_no r = s) (collectRules P (build_ruleFiles fs) []))"
  shows "map (\<lambda>(r, rid). r\<lparr>rule_id := Some rid\<rparr>)
           (filter (\<lambda>(r, rid). section_no r = s)
              (extractorIds (collectRules P (extract_ruleFiles fs) []) Map.empty)) =
         rulesOf (rulesBySection lc P fs) s"
proof -
  have same: "extract_ruleFiles fs = build_ruleFiles fs"
    by (simp add: extract_ruleFiles_def build_ruleFiles_def)
  have "sortStable (byTitle lc) (filter (\<lambda>r. section_no r = s) (collectRules P (build_ruleFiles fs) []))
      = filter (\<lambda>r. section_no r = s) (collectRules P (build_ruleFiles fs) [])"
    using assms by (intro sortStable_sorted) (simp add: byTitle_def)
  then show ?thesis
    by (simp add: same extractorIds_section rulesBySection_def rulesOf_sortAndAssign
        rulesOf_groupRules rulesOf_empty)
qed

lemma extractTestCases_by_ids:
  "extractTestCases P fs =
     concat (map (\<lambda>(r, rid). extractExamples rid r (examples r) [])
       (extractorIds (collectRules P (extract_ruleFiles fs) []) Map.empty))"
  by (simp add: extractTestCases_def extractLoop_eq extract_by_ids)

section \<open>What the document depends on\<close>

text \<open>Without a metadata file the document starts with the default header and the clock's date.\<close>

lemma build_no_metadata_prefix:
  assumes "metadataFile fs = None"
  shows "\<exists>rest. buildAgents lc P J fs =
           Inr (''# Postgres Best Practices'' @ [CHR 0x0A, CHR 0x0A] @ ''**Version 0.1.0**''
                @ [CHR 0x0A] @ ''Supabase'' @ [CHR 0x0A] @ today fs @ [CHR 0x0A] @ rest)"
  using assms
  by (simp add: buildAgents_def loadMetadata_def renderDocument_def renderHeader_def)

text \<open>
  The rules of a run are the valid rules of its files, and as a multiset they do not
  depend on the order of the listing.
\<close>

lemma collectRules_validRules: "collectRules P files [] = validRules P files"
proof (induction files)
  case Nil
  show ?case by (simp add: validRules_def)
next
  case (Cons f files)
  then show ?case
    by (simp only: collectRules_Cons) (simp add: validRules_def)
qed

lemma mset_concat_map:
  "mset xs = mset ys \<Longrightarrow> mset (concat (map g xs)) = mset (concat (map g ys))"
proof -
  assume eq: "mset xs = mset ys"
  have "mset (concat (map g zs)) = (\<Sum>z \<in># mset zs. mset (g z))" for zs
    by (induction zs) simp_all
  with eq show ?thesis by simp
qed

lemma mset_validRules:
  "mset files1 = mset files2 \<Longrightarrow> mset (validRules P files1) = mset (validRules P files2)"
  unfolding validRules_def by (rule mset_concat_map)

text \<open>
  A sorted list is determined by its elements when elements that compare equal are equal:
  then the stable sort of the build gives the same list for every order of its input.
\<close>

lemma consistent_zero:
  "consistent cmp \<Longrightarrow> cmp a b \<le> 0 \<Longrightarrow> cmp b a \<le> 0 \<Longrightarrow> cmp a b = 0"
  unfolding consistent_def by (metis less_le_not_le order_le_less)

lemma sorted_unique:
  assumes "consistent cmp"
  shows "sorted_wrt (\<lambda>a b. cmp a b \<le> 0) xs \<Longrightarrow> sorted_wrt (\<lambda>a b. cmp a b \<le> 0) ys \<Longrightarrow>
         mset xs = mset ys \<Longrightarrow> (\<forall>a \<in> set xs. \<forall>b \<in> set xs. cmp a b = 0 \<longrightarrow> a = b) \<Longrightarrow>
         xs = ys"
proof (induction xs arbitrary: ys)
  case Nil
  then show ?case by simp
next
  case (Cons x xs)
  from Cons.prems(3) obtain y ys' where ys: "ys = y # ys'"
    by (cases ys) auto
  have sets: "set (x # xs) = set (y # ys')"
    using Cons.prems(3) ys by (metis mset_eq_setD)
  have "x = y"
  proof (rule ccontr)
    assume ne: "x \<noteq> y"
    with sets have "y \<in> set xs" and "x \<in> set ys'" by auto
    then have "cmp x y \<le> 0" and "cmp y x \<le> 0"
      using Cons.prems(1,2) ys by auto
    then have "cmp x y = 0" using consistent_zero [OF assms] by blast
    moreover have "x \<in> set (x # xs)" and "y \<in> set (x # xs)" using sets by auto
    ultimately have "x = y" using Cons.prems(4) by blast
    with ne show False by simp
  qed
  moreover have "xs = ys'"
  proof (rule Cons.IH)
    show "sorted_wrt (\<lambda>a b. cmp a b \<le> 0) xs" using Cons.prems(1) by simp
    show "sorted_wrt (\<lambda>a b. cmp a b \<le> 0) ys'" using Cons.prems(2) ys by simp
    show "mset xs = mset ys'" using Cons.prems(3) ys \<open>x = y\<close> by simp
    show "\<forall>a \<in> set xs. \<forall>b \<in> set xs. cmp a b = 0 \<longrightarrow> a = b" using Cons.prems(4) by simp
  qed
  ultimately show ?case using ys by simp
qed

lemma rulesOf_rulesBySection:
  "rulesOf (rulesBySection lc P fs) s =
     assignFrom s 0 (sortStable (byTitle lc)
       (filter (\<lambda>r. section_no r = s) (collectRules P (build_ruleFiles fs) [])))"
  by (simp add: rulesBySection_def rulesOf_sortAndAssign rulesOf_groupRules rulesOf_empty)

lemma renderDocument_cong:
  assumes "\<And>s. rulesOf m1 s = rulesOf m2 s"
  shows "renderDocument md secs m1 = renderDocument md secs m2"
proof -
  have "renderTocSection m1 = renderTocSection m2" and "renderSection m1 = renderSection m2"
    using assms by (simp_all add: fun_eq_iff renderTocSection_def renderSection_def)
  then show ?thesis by (simp add: renderDocument_def)
qed

lemma sectionsFile_perm:
  assumes "mset (rulesDir fs1) = mset (rulesDir fs2)" and "distinct (map fst (rulesDir fs1))"
  shows "sectionsFile fs1 = sectionsFile fs2"
proof -
  have "mset (map fst (rulesDir fs1)) = mset (map fst (rulesDir fs2))"
    using assms(1) by (metis mset_map)
  then have "distinct (map fst (rulesDir fs2))"
    using assms(2) by (metis mset_eq_imp_distinct_iff)
  moreover have "set (rulesDir fs1) = set (rulesDir fs2)"
    using assms(1) by (rule mset_eq_setD)
  ultimately have "map_of (rulesDir fs1) = map_of (rulesDir fs2)"
    using assms(2) by (simp add: map_of_inject_set)
  then show ?thesis by (simp add: sectionsFile_def)
qed

lemma rules_permuted:
  assumes "consistent lc" and "mset (rulesDir fs1) = mset (rulesDir fs2)"
    and "noTitleTies lc (collectRules P (build_ruleFiles fs1) [])"
  shows "rulesOf (rulesBySection lc P fs1) s = rulesOf (rulesBySection lc P fs2) s"
proof -
  define F1 where "F1 = filter (\<lambda>r. section_no r = s) (collectRules P (build_ruleFiles fs1) [])"
  define F2 where "F2 = filter (\<lambda>r. section_no r = s) (collectRules P (build_ruleFiles fs2) [])"
  have c: "consistent (byTitle lc)" using assms(1) by (rule consistent_byTitle)
  have "mset (build_ruleFiles fs1) = mset (build_ruleFiles fs2)"
    using assms(2) by (simp add: build_ruleFiles_def)
  then have "mset (validRules P (build_ruleFiles fs1)) = mset (validRules P (build_ruleFiles fs2))"
    by (rule mset_validRules)
  then have "mset (collectRules P (build_ruleFiles fs1) []) =
      mset (collectRules P (build_ruleFiles fs2) [])"
    by (simp only: collectRules_validRules)
  then have m: "mset F1 = mset F2" by (simp add: F1_def F2_def)
  have sets: "set (sortStable (byTitle lc) F1) = set F1"
    using mset_sortStable [of "byTitle lc" F1] by (rule mset_eq_setD)
  have sub: "set F1 \<subseteq> set (collectRules P (build_ruleFiles fs1) [])"
    and sec: "\<forall>a \<in> set F1. section_no a = s"
    by (simp_all add: F1_def)
  have ties: "\<forall>a \<in> set (sortStable (byTitle lc) F1). \<forall>b \<in> set (sortStable (byTitle lc) F1).
      byTitle lc a b = 0 \<longrightarrow> a = b"
  proof (intro ballI impI)
    fix a b
    assume a: "a \<in> set (sortStable (byTitle lc) F1)"
      and b: "b \<in> set (sortStable (byTitle lc) F1)" and z: "byTitle lc a b = 0"
    from a b sets sec have "section_no a = section_no b" by simp
    moreover from a b sets sub have "a \<in> set (collectRules P (build_ruleFiles fs1) [])"
      and "b \<in> set (collectRules P (build_ruleFiles fs1) [])" by auto
    moreover from z have "lc (title a) (title b) = 0" by (simp add: byTitle_def)
    ultimately show "a = b" using assms(3) unfolding noTitleTies_def by blast
  qed
  have "sortStable (byTitle lc) F1 = sortStable (byTitle lc) F2"
  proof (rule sorted_unique [OF c])
    show "sorted_wrt (\<lambda>a b. byTitle lc a b \<le> 0) (sortStable (byTitle lc) F1)"
      by (rule sorted_sortStable [OF c])
    show "sorted_wrt (\<lambda>a b. byTitle lc a b \<le> 0) (sortStable (byTitle lc) F2)"
      by (rule sorted_sortStable [OF c])
    show "mset (sortStable (byTitle lc) F1) = mset (sortStable (byTitle lc) F2)"
      by (simp only: mset_sortStable m)
    show "\<forall>a \<in> set (sortStable (byTitle lc) F1). \<forall>b \<in> set (sortStable (byTitle lc) F1).
        byTitle lc a b = 0 \<longrightarrow> a = b"
      by (rule ties)
  qed
  then show ?thesis by (simp add: rulesOf_rulesBySection F1_def F2_def)
qed

text \<open>
  The lines of the document up to the first rule of section 3 in the table of contents
  are the same for every two runs with the default sections and with no rule in
  sections 1 and 2; documents that are equal agree on the first rule's entry.
\<close>

lemma join_split:
  "post \<noteq> [] \<Longrightarrow> join sep (pre @ post) = concat (map (\<lambda>l. l @ sep) pre) @ join sep post"
proof (induction pre)
  case Nil
  show ?case by simp
next
  case (Cons x pre)
  then obtain y ys where "pre @ post = y # ys" by (cases "pre @ post") auto
  with Cons show ?case by simp
qed

lemma docs_equal_first_rule:
  assumes "rulesOf m1 1 = []" and "rulesOf m1 2 = []" and "rulesOf m1 3 = r1 # rs1"
    and "rulesOf m2 1 = []" and "rulesOf m2 2 = []" and "rulesOf m2 3 = r2 # rs2"
    and "renderDocument md getDefaultSections m1 = renderDocument md getDefaultSections m2"
  shows "\<exists>t1 t2. renderTocRule r1 @ CHR 0x0A # t1 = renderTocRule r2 @ CHR 0x0A # t2"
proof -
  define pre where "pre = renderHeader md @ [''## Table of Contents'' @ [CHR 0x0A]]
      @ take 5 (concat (map (renderTocSection []) getDefaultSections))"
  define post where "post m = tl (drop 5 (concat (map (renderTocSection m) getDefaultSections)))
      @ [''---'' @ [CHR 0x0A]] @ concat (map (renderSection m) getDefaultSections)
      @ renderMetaReferences md" for m
  have shape: "renderDocument md getDefaultSections m =
      concat (map (\<lambda>l. l @ [CHR 0x0A]) pre) @ renderTocRule r @ CHR 0x0A # join [CHR 0x0A] (post m)"
    if "rulesOf m 1 = []" and "rulesOf m 2 = []" and "rulesOf m 3 = r # rs" for m r rs
  proof -
    have "renderHeader md @ [''## Table of Contents'' @ [CHR 0x0A]]
        @ concat (map (renderTocSection m) getDefaultSections)
        @ [''---'' @ [CHR 0x0A]] @ concat (map (renderSection m) getDefaultSections)
        @ renderMetaReferences md = pre @ (renderTocRule r # post m)"
      using that
      by (simp add: pre_def post_def getDefaultSections_def renderTocSection_def rulesOf_empty)
    then have "renderDocument md getDefaultSections m = join [CHR 0x0A] (pre @ (renderTocRule r # post m))"
      by (simp add: renderDocument_def)
    also have "\<dots> = concat (map (\<lambda>l. l @ [CHR 0x0A]) pre) @ join [CHR 0x0A] (renderTocRule r # post m)"
      by (rule join_split) simp
    also have "join [CHR 0x0A] (renderTocRule r # post m) =
        renderTocRule r @ CHR 0x0A # join [CHR 0x0A] (post m)"
      by (cases "post m") (simp_all add: post_def)
    finally show ?thesis .
  qed
  from shape [OF assms(1-3)] shape [OF assms(4-6)] assms(7)
  have "renderTocRule r1 @ CHR 0x0A # join [CHR 0x0A] (post m1) =
      renderTocRule r2 @ CHR 0x0A # join [CHR 0x0A] (post m2)"
    by simp
  then show ?thesis by blast
qed

lemma consistent_foldOrder: "consistent foldOrder"
  using consistent_codeOrder unfolding consistent_def foldOrder_def by blast

lemma sampleParser2_simps:
  "sampleParser2 (''schema-a.md'', c) =
     \<lparr>success = True, rule = Some (sampleRule ''Zebra Index'' ''HIGH'' [exIncorrect, exCorrect]),
      parse_errors = [], parse_warnings = []\<rparr>"
  "sampleParser2 (''schema-g.md'', c) =
     \<lparr>success = True, rule = Some (sampleRule ''add Index'' ''HIGH'' [exIncorrect, exCorrect]),
      parse_errors = [], parse_warnings = []\<rparr>"
  "sampleParser2 (''schema-h.md'', c) =
     \<lparr>success = True, rule = Some (sampleRule ''zebra index'' ''LOW'' [exIncorrect, exCorrect]),
      parse_errors = [], parse_warnings = []\<rparr>"
  by (simp_all add: sampleParser2_def)

lemma validate_samples2:
  "valid (validateRuleFile sampleParser2 (''schema-a.md'', c))"
  "valid (validateRuleFile sampleParser2 (''schema-g.md'', c))"
  "valid (validateRuleFile sampleParser2 (''schema-h.md'', c))"
  by (simp_all add: validator_eval sampleParser2_simps)

lemma file_filter_samples2:
  "endsWith ''schema-g.md'' ''.md''" "\<not> startsWith ''schema-g.md'' ''_''"
  "endsWith ''schema-h.md'' ''.md''" "\<not> startsWith ''schema-h.md'' ''_''"
  by (simp_all add: endsWith_def startsWith_def suffix_to_prefix)

lemma order_samples2:
  "codeOrder ''Zebra Index'' ''add Index'' = - 1" "codeOrder ''add Index'' ''Zebra Index'' = 1"
  "foldOrder ''Zebra Index'' ''add Index'' = 1" "foldOrder ''add Index'' ''Zebra Index'' = - 1"
  "foldOrder ''Zebra Index'' ''zebra index'' = 0" "foldOrder ''zebra index'' ''Zebra Index'' = 0"
  by (simp_all add: codeOrder_def foldOrder_def toLowerCase_def toLowerChar_def less_char_def)

lemmas build_eval2 =
  rulesOf_rulesBySection build_ruleFiles_def sampleDir_def file_filter_samples
  file_filter_samples2 validate_samples2 sampleParser2_simps sortStable_def byTitle_def
  order_samples2 idText_def showNat_digits sampleRule_def Let_def

lemma sample_rules_by_collation:
  "rulesOf (rulesBySection codeOrder sampleParser2 (sampleDir [''schema-a.md'', ''schema-g.md''] d)) 3 =
     [(sampleRule ''Zebra Index'' ''HIGH'' [exIncorrect, exCorrect])\<lparr>rule_id := Some ''3.1''\<rparr>,
      (sampleRule ''add Index'' ''HIGH'' [exIncorrect, exCorrect])\<lparr>rule_id := Some ''3.2''\<rparr>]"
  "rulesOf (rulesBySection foldOrder sampleParser2 (sampleDir [''schema-a.md'', ''schema-g.md''] d)) 3 =
     [(sampleRule ''add Index'' ''HIGH'' [exIncorrect, exCorrect])\<lparr>rule_id := Some ''3.1''\<rparr>,
      (sampleRule ''Zebra Index'' ''HIGH'' [exIncorrect, exCorrect])\<lparr>rule_id := Some ''3.2''\<rparr>]"
  "rulesOf (rulesBySection foldOrder sampleParser2 (sampleDir [''schema-a.md'', ''schema-h.md''] d)) 3 =
     [(sampleRule ''Zebra Index'' ''HIGH'' [exIncorrect, exCorrect])\<lparr>rule_id := Some ''3.1''\<rparr>,
      (sampleRule ''zebra index'' ''LOW'' [exIncorrect, exCorrect])\<lparr>rule_id := Some ''3.2''\<rparr>]"
  "rulesOf (rulesBySection foldOrder sampleParser2 (sampleDir [''schema-h.md'', ''schema-a.md''] d)) 3 =
     [(sampleRule ''zebra index'' ''LOW'' [exIncorrect, exCorrect])\<lparr>rule_id := Some ''3.1''\<rparr>,
      (sampleRule ''Zebra Index'' ''HIGH'' [exIncorrect, exCorrect])\<lparr>rule_id := Some ''3.2''\<rparr>]"
  by (simp_all add: build_eval2)

lemma sample_rules_other_sections:
  "rulesOf (rulesBySection lc sampleParser2 (sampleDir [n1, n2] d)) 1 = []"
  "rulesOf (rulesBySection lc sampleParser2 (sampleDir [n1, n2] d)) 2 = []"
proof -
  have "section_no r = 3" if "r \<in> set (validRules sampleParser2 files)" for r files
    using that
    by (auto simp add: validRules_def sampleParser2_def sampleRule_def
        split: if_splits option.splits)
  then have "filter (\<lambda>r. section_no r = k) (validRules sampleParser2 files) = []"
    if "k \<noteq> 3" for k files
    using that by (auto simp add: filter_empty_conv)
  then show "rulesOf (rulesBySection lc sampleParser2 (sampleDir [n1, n2] d)) 1 = []"
    and "rulesOf (rulesBySection lc sampleParser2 (sampleDir [n1, n2] d)) 2 = []"
    by (simp_all add: rulesOf_rulesBySection collectRules_validRules sortStable_def)
qed

lemma sample_build2:
  assumes "''_sections.md'' \<notin> set names"
  shows "buildAgents lc sampleParser2 sampleJson (sampleDir names d) =
     Inr (renderDocument sampleMetadata getDefaultSections
            (rulesBySection lc sampleParser2 (sampleDir names d)))"
proof -
  have "sectionsFile (sampleDir names d) = None"
    using assms by (simp add: sectionsFile_def sampleDir_def map_of_eq_None_iff image_iff)
  then have "parseSections (sampleDir names d) = getDefaultSections"
    by (simp add: parseSections_def)
  moreover have "loadMetadata sampleJson (sampleDir names d) = Inr sampleMetadata"
    by (simp add: loadMetadata_def sampleDir_def sampleJson_def)
  ultimately show ?thesis by (simp add: buildAgents_def)
qed

lemma tocRule_samples:
  "renderTocRule ((sampleRule ''Zebra Index'' i exs)\<lparr>rule_id := Some ''3.1''\<rparr>) @ CHR 0x0A # t1 \<noteq>
   renderTocRule ((sampleRule ''add Index'' j exs')\<lparr>rule_id := Some ''3.1''\<rparr>) @ CHR 0x0A # t2"
  "renderTocRule ((sampleRule ''Zebra Index'' i exs)\<lparr>rule_id := Some ''3.1''\<rparr>) @ CHR 0x0A # t1 \<noteq>
   renderTocRule ((sampleRule ''zebra index'' j exs')\<lparr>rule_id := Some ''3.1''\<rparr>) @ CHR 0x0A # t2"
  by (simp_all add: renderTocRule_def showId_def sampleRule_def)

lemma locale_changes_document:
  "buildAgents codeOrder sampleParser2 sampleJson (sampleDir [''schema-a.md'', ''schema-g.md''] d) \<noteq>
   buildAgents foldOrder sampleParser2 sampleJson (sampleDir [''schema-a.md'', ''schema-g.md''] d)"
proof
  assume "buildAgents codeOrder sampleParser2 sampleJson (sampleDir [''schema-a.md'', ''schema-g.md''] d) =
      buildAgents foldOrder sampleParser2 sampleJson (sampleDir [''schema-a.md'', ''schema-g.md''] d)"
  then have "renderDocument sampleMetadata getDefaultSections
        (rulesBySection codeOrder sampleParser2 (sampleDir [''schema-a.md'', ''schema-g.md''] d)) =
      renderDocument sampleMetadata getDefaultSections
        (rulesBySection foldOrder sampleParser2 (sampleDir [''schema-a.md'', ''schema-g.md''] d))"
    by (simp add: sample_build2)
  from docs_equal_first_rule [OF sample_rules_other_sections sample_rules_by_collation(1)
      sample_rules_other_sections sample_rules_by_collation(2) this]
  show False using tocRule_samples(1) by blast
qed

lemma listing_order_changes_document:
  "buildAgents foldOrder sampleParser2 sampleJson (sampleDir [''schema-a.md'', ''schema-h.md''] d) \<noteq>
   buildAgents foldOrder sampleParser2 sampleJson (sampleDir [''schema-h.md'', ''schema-a.md''] d)"
proof
  assume "buildAgents foldOrder sampleParser2 sampleJson (sampleDir [''schema-a.md'', ''schema-h.md''] d) =
      buildAgents foldOrder sampleParser2 sampleJson (sampleDir [''schema-h.md'', ''schema-a.md''] d)"
  then have "renderDocument sampleMetadata getDefaultSections
        (rulesBySection foldOrder sampleParser2 (sampleDir [''schema-a.md'', ''schema-h.md''] d)) =
      renderDocument sampleMetadata getDefaultSections
        (rulesBySection foldOrder sampleParser2 (sampleDir [''schema-h.md'', ''schema-a.md''] d))"
    by (simp add: sample_build2)
  from docs_equal_first_rule [OF sample_rules_other_sections sample_rules_by_collation(3)
      sample_rules_other_sections sample_rules_by_collation(4) this]
  show False using tocRule_samples(2) [symmetric] tocRule_samples(2) by metis
qed

lemma clock_changes_document:
  "buildAgents codeOrder sampleParser sampleJson (sampleRun None ''January 2026'') \<noteq>
   buildAgents codeOrder sampleParser sampleJson (sampleRun None ''February 2026'')"
  using build_no_metadata_prefix [of "sampleRun None ''January 2026''" codeOrder sampleParser sampleJson]
    build_no_metadata_prefix [of "sampleRun None ''February 2026''" codeOrder sampleParser sampleJson]
  by (auto simp add: sampleRun_def)

text \<open>
  C3 as stated fails, in three ways. With the same rule files, the same section
  definitions and the same (absent) metadata file, a run in January 2026 and a run in
  February 2026 write different documents. With the same files and metadata, a run
  under one collation and a run under another (both consistent) write different
  documents. With the same files and metadata under one collation, two listings of the
  directory in different orders write different documents when two rules of a section
  have titles that compare equal.
\<close>

theorem build_depends_on_clock_collation_listing:
  "rulesDir (sampleRun None ''January 2026'') = rulesDir (sampleRun None ''February 2026'') \<and>
   metadataFile (sampleRun None ''January 2026'') = metadataFile (sampleRun None ''February 2026'') \<and>
   buildAgents codeOrder sampleParser sampleJson (sampleRun None ''January 2026'') \<noteq>
   buildAgents codeOrder sampleParser sampleJson (sampleRun None ''February 2026'') \<and>
   consistent codeOrder \<and> consistent foldOrder \<and>
   buildAgents codeOrder sampleParser2 sampleJson
     (sampleDir [''schema-a.md'', ''schema-g.md''] ''January 2026'') \<noteq>
   buildAgents foldOrder sampleParser2 sampleJson
     (sampleDir [''schema-a.md'', ''schema-g.md''] ''January 2026'') \<and>
   mset (rulesDir (sampleDir [''schema-a.md'', ''schema-h.md''] ''January 2026'')) =
   mset (rulesDir (sampleDir [''schema-h.md'', ''schema-a.md''] ''January 2026'')) \<and>
   metadataFile (sampleDir [''schema-a.md'', ''schema-h.md''] ''January 2026'') =
   metadataFile (sampleDir [''schema-h.md'', ''schema-a.md''] ''January 2026'') \<and>
   buildAgents foldOrder sampleParser2 sampleJson
     (sampleDir [''schema-a.md'', ''schema-h.md''] ''January 2026'') \<noteq>
   buildAgents foldOrder sampleParser2 sampleJson
     (sampleDir [''schema-h.md'', ''schema-a.md''] ''January 2026'')"
  using clock_changes_document locale_changes_document listing_order_changes_document
    consistent_codeOrder consistent_foldOrder
  by (simp add: sampleRun_def sampleDir_def)

text \<open>
  C3, amended. Two runs on the same files with the same contents (rule files and section
  definitions, one file per name) and the same metadata file write the same document,
  provided that both runs sort with the same consistent collation, that both read the
  same month and year from the clock when there is no metadata file, and that the
  directory is listed in the same order or no two different valid rules of one section
  have titles that compare equal. Under these conditions neither the clock (with a
  metadata file) nor the order of the listing has any influence.
\<close>

theorem build_deterministic:
  assumes "consistent lc"
    and "mset (rulesDir fs1) = mset (rulesDir fs2)"
    and "distinct (map fst (rulesDir fs1))"
    and "metadataFile fs1 = metadataFile fs2"
    and "metadataFile fs1 = None \<longrightarrow> today fs1 = today fs2"
    and "rulesDir fs1 = rulesDir fs2 \<or>
         noTitleTies lc (collectRules P (build_ruleFiles fs1) [])"
  shows "buildAgents lc P J fs1 = buildAgents lc P J fs2"
proof -
  have meta: "loadMetadata J fs1 = loadMetadata J fs2"
    using assms(4,5) by (simp add: loadMetadata_def split: option.splits)
  have secs: "parseSections fs1 = parseSections fs2"
    using sectionsFile_perm [OF assms(2,3)] by (simp add: parseSections_def)
  have "rulesOf (rulesBySection lc P fs1) s = rulesOf (rulesBySection lc P fs2) s" for s
    using assms(6)
  proof
    assume "rulesDir fs1 = rulesDir fs2"
    then show ?thesis by (simp add: rulesBySection_def build_ruleFiles_def)
  next
    assume "noTitleTies lc (collectRules P (build_ruleFiles fs1) [])"
    with assms(1,2) show ?thesis by (rule rules_permuted)
  qed
  then have "renderDocument md (parseSections fs2) (rulesBySection lc P fs1) =
      renderDocument md (parseSections fs2) (rulesBySection lc P fs2)" for md
    by (rule renderDocument_cong)
  with meta secs show ?thesis by (simp add: buildAgents_def split: sum.splits)
qed

theorem build_deterministic_witness:
  "consistent codeOrder \<and>
   mset (rulesDir (sampleDir [''schema-a.md'', ''schema-b.md''] ''January 2026'')) =
   mset (rulesDir (sampleDir [''schema-b.md'', ''schema-a.md''] ''February 2026'')) \<and>
   rulesDir (sampleDir [''schema-a.md'', ''schema-b.md''] ''January 2026'') \<noteq>
   rulesDir (sampleDir [''schema-b.md'', ''schema-a.md''] ''February 2026'') \<and>
   distinct (map fst (rulesDir (sampleDir [''schema-a.md'', ''schema-b.md''] ''January 2026''))) \<and>
   metadataFile (sampleDir [''schema-a.md'', ''schema-b.md''] ''January 2026'') =
   metadataFile (sampleDir [''schema-b.md'', ''schema-a.md''] ''February 2026'') \<and>
   metadataFile (sampleDir [''schema-a.md'', ''schema-b.md''] ''January 2026'') \<noteq> None \<and>
   today (sampleDir [''schema-a.md'', ''schema-b.md''] ''January 2026'') \<noteq>
   today (sampleDir [''schema-b.md'', ''schema-a.md''] ''February 2026'') \<and>
   noTitleTies codeOrder
     (collectRules sampleParser
        (build_ruleFiles (sampleDir [''schema-a.md'', ''schema-b.md''] ''January 2026'')) []) \<and>
   buildAgents codeOrder sampleParser sampleJson
     (sampleDir [''schema-a.md'', ''schema-b.md''] ''January 2026'') =
   buildAgents codeOrder sampleParser sampleJson
     (sampleDir [''schema-b.md'', ''schema-a.md''] ''February 2026'')"
proof -
  have files: "build_ruleFiles (sampleDir [''schema-a.md'', ''schema-b.md''] ''January 2026'') =
      [(''schema-a.md'', []), (''schema-b.md'', [])]"
    by (simp add: build_ruleFiles_def sampleDir_def file_filter_samples)
  have ties: "noTitleTies codeOrder
      (collectRules sampleParser
         (build_ruleFiles (sampleDir [''schema-a.md'', ''schema-b.md''] ''January 2026'')) [])"
    by (simp add: files noTitleTies_def validate_samples sampleParser_simps sampleRule_def
        codeOrder_samples)
  show ?thesis
    using build_deterministic [of codeOrder
        "sampleDir [''schema-a.md'', ''schema-b.md''] ''January 2026''"
        "sampleDir [''schema-b.md'', ''schema-a.md''] ''February 2026''" sampleParser sampleJson]
      consistent_codeOrder ties
    by (simp add: sampleDir_def)
qed

section \<open>The section definitions\<close>

text \<open>
  C10. When \<open>_sections.md\<close> exists and the pattern matches at least once,
  \<open>parseSections\<close> returns the matched sections, one per match and no more; the table
  of eight defaults is returned when the file is absent or nothing matches.
\<close>

theorem parseSections_matched_or_default:
  "(sectionsFile fs = Some content \<and> matchAll sectionRegex content \<noteq> [] \<longrightarrow>
      parseSections fs = map sectionOfMatch (matchAll sectionRegex content) \<and>
      length (parseSections fs) = length (matchAll sectionRegex content)) \<and>
   (sectionsFile fs = None \<or> (sectionsFile fs = Some content \<and> matchAll sectionRegex content = []) \<longrightarrow>
      parseSections fs = getDefaultSections) \<and>
   length getDefaultSections = 8"
proof -
  have matched: "parseSections fs = map sectionOfMatch (matchAll sectionRegex content)"
    if "sectionsFile fs = Some content" and "matchAll sectionRegex content \<noteq> []"
    using that by (simp add: parseSections_def Let_def)
  have absent: "parseSections fs = getDefaultSections" if "sectionsFile fs = None"
    using that by (simp add: parseSections_def)
  have unmatched: "parseSections fs = getDefaultSections"
    if "sectionsFile fs = Some content" and "matchAll sectionRegex content = []"
    using that by (simp add: parseSections_def Let_def)
  have "length getDefaultSections = 8"
    by (simp add: getDefaultSections_def)
  with matched absent unmatched show ?thesis by auto
qed

text \<open>A file with two well-formed sections and a third, broken one gives two sections.\<close>

lemma sampleSections_matches:
  "map sectionOfMatch (matchAll sectionRegex sampleSections) =
     [\<lparr>sec_number = 1, sec_title = ''Query Performance'', sec_prefix = ''query'',
       sec_impact = ''CRITICAL'', sec_description = ''Slow queries''\<rparr>,
      \<lparr>sec_number = 4, sec_title = ''Locking'', sec_prefix = ''lock'',
       sec_impact = ''MEDIUM-HIGH'', sec_description = ''Deadlocks''\<rparr>]"
  by code_simp

theorem parseSections_matched_or_default_witness:
  "sectionsFile \<lparr>rulesDir = [(''_sections.md'', sampleSections)], metadataFile = None,
      today = ''January 2026''\<rparr> = Some sampleSections \<and>
   length (matchAll sectionRegex sampleSections) = 2 \<and>
   parseSections \<lparr>rulesDir = [(''_sections.md'', sampleSections)], metadataFile = None,
      today = ''January 2026''\<rparr> =
     [\<lparr>sec_number = 1, sec_title = ''Query Performance'', sec_prefix = ''query'',
       sec_impact = ''CRITICAL'', sec_description = ''Slow queries''\<rparr>,
      \<lparr>sec_number = 4, sec_title = ''Locking'', sec_prefix = ''lock'',
       sec_impact = ''MEDIUM-HIGH'', sec_description = ''Deadlocks''\<rparr>]"
proof -
  have len: "length (matchAll sectionRegex sampleSections) = 2"
    using arg_cong [OF sampleSections_matches, of length] by simp
  then have ne: "matchAll sectionRegex sampleSections \<noteq> []" by auto
  have sf: "sectionsFile \<lparr>rulesDir = [(''_sections.md'', sampleSections)], metadataFile = None,
      today = ''January 2026''\<rparr> = Some sampleSections"
    by (simp add: sectionsFile_def)
  show ?thesis
    using parseSections_matched_or_default [of "\<lparr>rulesDir = [(''_sections.md'', sampleSections)],
        metadataFile = None, today = ''January 2026''\<rparr>" sampleSections] sf ne len
    by (simp add: sampleSections_matches)
qed

section \<open>Which files are rules\<close>

lemma startsWith_underscore: "startsWith n ''_'' = (\<exists>rest. n = CHR ''_'' # rest)"
  by (cases n) (auto simp add: startsWith_def)

lemma endsWith_md: "endsWith n ''.md'' = (\<exists>stem. n = stem @ ''.md'')"
  by (auto simp add: endsWith_def suffix_def)

lemma isRuleFile_name:
  "isRuleFile f \<longleftrightarrow> (\<exists>stem. fst f = stem @ ''.md'') \<and> (\<forall>rest. fst f \<noteq> CHR ''_'' # rest)"
  by (simp add: isRuleFile_def startsWith_underscore endsWith_md)

lemma ruleFiles_isRuleFile:
  "validate_ruleFiles fs = filter isRuleFile (rulesDir fs)"
  "build_ruleFiles fs = filter isRuleFile (rulesDir fs)"
  "extract_ruleFiles fs = filter isRuleFile (rulesDir fs)"
  by (simp_all add: validate_ruleFiles_def build_ruleFiles_def extract_ruleFiles_def
      isRuleFile_def [abs_def])

lemma mapSet_new: "k \<notin> fst ` set m \<Longrightarrow> mapSet k v m = m @ [(k, v)]"
  by (induction k v m rule: mapSet.induct) auto

lemma validateLoop_distinct:
  assumes "distinct (map fst files)" and "fst ` set (results acc) \<inter> fst ` set files = {}"
  shows "validateLoop P files acc =
     acc\<lparr>validFiles := validFiles acc + length (filter (\<lambda>f. valid (validateRuleFile P f)) files),
         invalidFiles :=
           invalidFiles acc + length (filter (\<lambda>f. \<not> valid (validateRuleFile P f)) files),
         results := results acc @ map (\<lambda>f. (fst f, validateRuleFile P f)) files\<rparr>"
  using assms
proof (induction files arbitrary: acc)
  case Nil
  show ?case by simp
next
  case (Cons f files)
  have new: "fst f \<notin> fst ` set (results acc)" using Cons.prems(2) by auto
  let ?acc1 = "acc\<lparr>results := results acc @ [(fst f, validateRuleFile P f)]\<rparr>"
  have disj: "fst ` set (results ?acc1) \<inter> fst ` set files = {}"
    using Cons.prems by auto
  have d: "distinct (map fst files)" using Cons.prems(1) by simp
  show ?case
  proof (cases "valid (validateRuleFile P f)")
    case True
    have "fst ` set (results (?acc1\<lparr>validFiles := validFiles ?acc1 + 1\<rparr>)) \<inter> fst ` set files = {}"
      using disj by simp
    from Cons.IH [OF d this] True show ?thesis
      by (simp add: Let_def mapSet_new [OF new])
  next
    case False
    have "fst ` set (results (?acc1\<lparr>invalidFiles := invalidFiles ?acc1 + 1\<rparr>)) \<inter> fst ` set files = {}"
      using disj by simp
    from Cons.IH [OF d this] False show ?thesis
      by (simp add: Let_def mapSet_new [OF new])
  qed
qed

lemma validateAllRules_distinct:
  assumes "distinct (map fst (rulesDir fs))"
  shows "validateAllRules P fs =
     \<lparr>totalFiles = length (filter isRuleFile (rulesDir fs)),
      validFiles =
        length (filter (\<lambda>f. valid (validateRuleFile P f)) (filter isRuleFile (rulesDir fs))),
      invalidFiles =
        length (filter (\<lambda>f. \<not> valid (validateRuleFile P f)) (filter isRuleFile (rulesDir fs))),
      results = map (\<lambda>f. (fst f, validateRuleFile P f)) (filter isRuleFile (rulesDir fs))\<rparr>"
proof -
  have "distinct (map fst (filter isRuleFile (rulesDir fs)))"
    using assms by (rule distinct_map_filter)
  then show ?thesis
    by (simp add: validateAllRules_def Let_def ruleFiles_isRuleFile validateLoop_distinct)
qed

lemma without_other_file:
  assumes "\<not> isRuleFile g"
  shows "filter isRuleFile (rulesDir (withoutFile g fs)) = filter isRuleFile (rulesDir fs)"
  using assms by (auto simp add: withoutFile_def intro: filter_cong)

lemma build_without_other_file:
  assumes "\<not> isRuleFile g" and "fst g \<noteq> ''_sections.md''"
  shows "buildAgents lc P J (withoutFile g fs) = buildAgents lc P J fs"
proof -
  have "sectionsFile (withoutFile g fs) = sectionsFile fs"
    using assms(2) by (simp add: sectionsFile_def withoutFile_def map_of_filter_other)
  then have "parseSections (withoutFile g fs) = parseSections fs"
    by (simp add: parseSections_def)
  moreover have "rulesBySection lc P (withoutFile g fs) = rulesBySection lc P fs"
    by (simp add: rulesBySection_def ruleFiles_isRuleFile without_other_file [OF assms(1)])
  moreover have "loadMetadata J (withoutFile g fs) = loadMetadata J fs"
    by (simp add: loadMetadata_def withoutFile_def split: option.splits)
  ultimately show ?thesis by (simp add: buildAgents_def split: sum.splits)
qed

text \<open>
  The build reads \<open>_sections.md\<close> from the rules directory: with the sample section
  definitions the table of contents goes on with section 4 where the default table has
  section 2.
\<close>

lemma sections_file_changes_document:
  "buildAgents lc P J sampleSectionsDir \<noteq>
   buildAgents lc P J (withoutFile (''_sections.md'', sampleSections) sampleSectionsDir)"
proof
  define md where "md =
      \<lparr>version = ''0.1.0'', organization = ''Supabase'', date = ''January 2026'',
       abstract = ''Postgres performance optimization guide for developers.'',
       meta_references = []\<rparr>"
  define pre where "pre = renderHeader md @ [''## Table of Contents'' @ [CHR 0x0A]]
      @ renderTocSection [] (hd getDefaultSections)"
  assume eq: "buildAgents lc P J sampleSectionsDir =
      buildAgents lc P J (withoutFile (''_sections.md'', sampleSections) sampleSectionsDir)"
  have under: "startsWith ''_sections.md'' ''_''"
    by (simp add: startsWith_def)
  have sec1: "parseSections sampleSectionsDir = map sectionOfMatch (matchAll sectionRegex sampleSections)"
    using arg_cong [OF sampleSections_matches, of length]
    by (auto simp add: parseSections_def sectionsFile_def sampleSectionsDir_def Let_def)
  have sec2: "parseSections (withoutFile (''_sections.md'', sampleSections) sampleSectionsDir) =
      getDefaultSections"
    by (simp add: parseSections_def sectionsFile_def sampleSectionsDir_def withoutFile_def)
  have none: "rulesBySection lc P sampleSectionsDir = []"
    "rulesBySection lc P (withoutFile (''_sections.md'', sampleSections) sampleSectionsDir) = []"
    by (simp_all add: rulesBySection_def build_ruleFiles_def sampleSectionsDir_def
        withoutFile_def under sortAndAssign_def)
  have meta: "loadMetadata J sampleSectionsDir = Inr md"
    "loadMetadata J (withoutFile (''_sections.md'', sampleSections) sampleSectionsDir) = Inr md"
    by (simp_all add: loadMetadata_def sampleSectionsDir_def withoutFile_def md_def)
  from eq have docs: "renderDocument md (map sectionOfMatch (matchAll sectionRegex sampleSections)) [] =
      renderDocument md getDefaultSections []"
    by (simp add: buildAgents_def sec1 sec2 none meta)
  have "\<exists>post. renderDocument md (map sectionOfMatch (matchAll sectionRegex sampleSections)) [] =
      concat (map (\<lambda>l. l @ [CHR 0x0A]) pre) @ CHR ''4'' # post"
  proof -
    have "\<exists>x post. renderHeader md @ [''## Table of Contents'' @ [CHR 0x0A]]
        @ concat (map (renderTocSection [])
            (map sectionOfMatch (matchAll sectionRegex sampleSections)))
        @ [''---'' @ [CHR 0x0A]]
        @ concat (map (renderSection [])
            (map sectionOfMatch (matchAll sectionRegex sampleSections)))
        @ renderMetaReferences md = pre @ ((CHR ''4'' # x) # post) \<and> post \<noteq> []"
      by (simp add: sampleSections_matches pre_def getDefaultSections_def renderTocSection_def
          rulesOf_empty showNat.simps digitChar_def)
    then obtain x post where "renderDocument md
        (map sectionOfMatch (matchAll sectionRegex sampleSections)) [] =
        join [CHR 0x0A] (pre @ ((CHR ''4'' # x) # post))" and "post \<noteq> []"
      by (auto simp add: renderDocument_def)
    then show ?thesis
      by (cases post) (simp_all add: join_split)
  qed
  moreover have "\<exists>post. renderDocument md getDefaultSections [] =
      concat (map (\<lambda>l. l @ [CHR 0x0A]) pre) @ CHR ''2'' # post"
  proof -
    have "\<exists>x post. renderHeader md @ [''## Table of Contents'' @ [CHR 0x0A]]
        @ concat (map (renderTocSection []) getDefaultSections)
        @ [''---'' @ [CHR 0x0A]]
        @ concat (map (renderSection []) getDefaultSections)
        @ renderMetaReferences md = pre @ ((CHR ''2'' # x) # post) \<and> post \<noteq> []"
      by (simp add: pre_def getDefaultSections_def renderTocSection_def
          rulesOf_empty showNat.simps digitChar_def)
    then obtain x post where "renderDocument md getDefaultSections [] =
        join [CHR 0x0A] (pre @ ((CHR ''2'' # x) # post))" and "post \<noteq> []"
      by (auto simp add: renderDocument_def)
    then show ?thesis
      by (cases post) (simp_all add: join_split)
  qed
  ultimately show False using docs by auto
qed

text \<open>
  C9 as stated fails for the build: \<open>_sections.md\<close> starts with an underscore, yet the
  build reads it, and the document changes when the file is taken away.
\<close>

theorem build_reads_sections_file:
  "(''_sections.md'', sampleSections) \<in> set (rulesDir sampleSectionsDir) \<and>
   startsWith (fst (''_sections.md'', sampleSections)) ''_'' \<and>
   buildAgents codeOrder sampleParser sampleJson sampleSectionsDir \<noteq>
   buildAgents codeOrder sampleParser sampleJson
     (withoutFile (''_sections.md'', sampleSections) sampleSectionsDir)"
  using sections_file_changes_document [of codeOrder sampleParser sampleJson]
  by (simp add: sampleSectionsDir_def startsWith_def)

text \<open>
  C9, amended. In \<open>validateAllRules\<close>, \<open>buildAgents\<close> and \<open>extractTestCases\<close> alike, a
  file of the rules directory (one file per name) is processed as a rule exactly when
  its name ends with \<open>.md\<close> and does not start with an underscore: the validation
  summary counts these files and holds the validation result of each, the test cases are
  the examples of their valid rules, and the document is rendered from their valid
  rules. Every other file is ignored without an error: taking it away changes neither
  the summary nor the test cases, and it does not change the document unless it is
  \<open>_sections.md\<close>, which the build reads as the section definitions.
\<close>

theorem rule_files_processed:
  assumes "distinct (map fst (rulesDir fs))"
  shows "(isRuleFile f \<longleftrightarrow>
            (\<exists>stem. fst f = stem @ ''.md'') \<and> (\<forall>rest. fst f \<noteq> CHR ''_'' # rest)) \<and>
         validateAllRules P fs =
           \<lparr>totalFiles = length (filter isRuleFile (rulesDir fs)),
            validFiles =
              length (filter (\<lambda>f. valid (validateRuleFile P f))
                        (filter isRuleFile (rulesDir fs))),
            invalidFiles =
              length (filter (\<lambda>f. \<not> valid (validateRuleFile P f))
                        (filter isRuleFile (rulesDir fs))),
            results =
              map (\<lambda>f. (fst f, validateRuleFile P f)) (filter isRuleFile (rulesDir fs))\<rparr> \<and>
         extractTestCases P fs =
           concat (map (\<lambda>(r, rid). extractExamples rid r (examples r) [])
                     (extractorIds (validRules P (filter isRuleFile (rulesDir fs))) Map.empty)) \<and>
         buildAgents lc P J fs =
           (case loadMetadata J fs of
              Inl e \<Rightarrow> Inl e
            | Inr metadata \<Rightarrow>
                Inr (renderDocument metadata (parseSections fs)
                       (sortAndAssign lc
                          (groupRules (validRules P (filter isRuleFile (rulesDir fs))) [])))) \<and>
         (\<not> isRuleFile g \<longrightarrow>
            validateAllRules P (withoutFile g fs) = validateAllRules P fs \<and>
            extractTestCases P (withoutFile g fs) = extractTestCases P fs) \<and>
         (\<not> isRuleFile g \<and> fst g \<noteq> ''_sections.md'' \<longrightarrow>
            buildAgents lc P J (withoutFile g fs) = buildAgents lc P J fs)"
proof -
  have "extractTestCases P fs =
      concat (map (\<lambda>(r, rid). extractExamples rid r (examples r) [])
                (extractorIds (validRules P (filter isRuleFile (rulesDir fs))) Map.empty))"
    by (simp add: extractTestCases_by_ids ruleFiles_isRuleFile collectRules_validRules)
  moreover have "buildAgents lc P J fs =
      (case loadMetadata J fs of
         Inl e \<Rightarrow> Inl e
       | Inr metadata \<Rightarrow>
           Inr (renderDocument metadata (parseSections fs)
                  (sortAndAssign lc
                     (groupRules (validRules P (filter isRuleFile (rulesDir fs))) []))))"
    by (simp add: buildAgents_def rulesBySection_def ruleFiles_isRuleFile collectRules_validRules
        split: sum.splits)
  moreover have "validateAllRules P (withoutFile g fs) = validateAllRules P fs \<and>
      extractTestCases P (withoutFile g fs) = extractTestCases P fs" if "\<not> isRuleFile g"
    using without_other_file [OF that, of fs]
    by (simp add: validateAllRules_def extractTestCases_def ruleFiles_isRuleFile)
  ultimately show ?thesis
    using isRuleFile_name [of f] validateAllRules_distinct [OF assms, of P]
      build_without_other_file [of g lc P J fs]
    by blast
qed

theorem rule_files_processed_witness:
  "distinct (map fst (rulesDir
     (sampleFs [''_template.md'', ''schema-a.md'', ''notes.txt'', ''schema-c.md'']))) \<and>
   isRuleFile (''schema-a.md'', []) \<and> isRuleFile (''schema-c.md'', []) \<and>
   \<not> isRuleFile (''_template.md'', []) \<and> \<not> isRuleFile (''notes.txt'', []) \<and>
   validateAllRules sampleParser
     (sampleFs [''_template.md'', ''schema-a.md'', ''notes.txt'', ''schema-c.md'']) =
     \<lparr>totalFiles = 2, validFiles = 1, invalidFiles = 1,
      results =
        [(''schema-a.md'', \<lparr>valid = True, errors = [], warnings = [W_language ''Correct'']\<rparr>),
         (''schema-c.md'',
          \<lparr>valid = False, errors = [E_impact ''SEVERE''],
           warnings = [W_language ''Correct'']\<rparr>)]\<rparr> \<and>
   map (\<lambda>t. (ruleId t, ruleTitle t, caseType t, caseCode t))
     (extractTestCases sampleParser
        (sampleFs [''_template.md'', ''schema-a.md'', ''notes.txt'', ''schema-c.md''])) =
     [(''3.1'', ''Zebra Index'', Bad, ''SELECT * FROM a;''),
      (''3.1'', ''Zebra Index'', Good, ''SELECT id FROM a;'')] \<and>
   buildAgents codeOrder sampleParser sampleJson
     (sampleFs [''_template.md'', ''schema-a.md'', ''schema-c.md'']) =
   buildAgents codeOrder sampleParser sampleJson
     (sampleFs [''_template.md'', ''schema-a.md'', ''notes.txt'', ''schema-c.md''])"
  using rule_files_processed [where fs = "sampleFs [''_template.md'', ''schema-a.md'', ''notes.txt'', ''schema-c.md'']"
      and f = "(''schema-a.md'', [])" and P = sampleParser and lc = codeOrder and J = sampleJson
      and g = "(''notes.txt'', [])"]
  by (simp add: sampleFs_def isRuleFile_def file_filter_samples validate_samples withoutFile_def
      validRules_def sampleParser_simps sampleRule_def exIncorrect_def exCorrect_def
      typeOfExample_classify classify_def label_checks trim_def isWhiteSpace_def showNat_digits
      Let_def)

end
